theory Spec2Isabelle
  imports Main "HOL-Library.Signed_Division" "HOL-Library.Monad_Syntax"
begin

unbundle bit_operations_syntax

section \<open>Machine integer types\<close>

text \<open>
  The template parameters \<open>R\<close>, \<open>T\<close>, \<open>U\<close> of \<open>checked_integer.hpp\<close> range over the
  native integer types.  A type is a signedness and a width; a value of the type is the
  mathematical integer it denotes (an \<open>int\<close> inside the range of the type).  The header
  presumes two's complement.
\<close>

datatype ity = U8 | I8 | U16 | I16 | U32 | I32 | U64 | I64

fun is_signed :: "ity \<Rightarrow> bool" where
  "is_signed U8 = False"
| "is_signed I8 = True"
| "is_signed U16 = False"
| "is_signed I16 = True"
| "is_signed U32 = False"
| "is_signed I32 = True"
| "is_signed U64 = False"
| "is_signed I64 = True"

fun width :: "ity \<Rightarrow> nat" where
  "width U8 = 8"
| "width I8 = 8"
| "width U16 = 16"
| "width I16 = 16"
| "width U32 = 32"
| "width I32 = 32"
| "width U64 = 64"
| "width I64 = 64"

text \<open>\<open>std::numeric_limits<R>::max()\<close>, \<open>min()\<close> and \<open>digits\<close> (the value bits: the width
  without the sign bit).\<close>

definition max_of :: "ity \<Rightarrow> int" where
  "max_of R = (if is_signed R then 2 ^ (width R - 1) - 1 else 2 ^ width R - 1)"

definition min_of :: "ity \<Rightarrow> int" where
  "min_of R = (if is_signed R then - (2 ^ (width R - 1)) else 0)"

definition digits :: "ity \<Rightarrow> nat" where
  "digits R = (if is_signed R then width R - 1 else width R)"

definition in_range :: "ity \<Rightarrow> int \<Rightarrow> bool" where
  "in_range R v = (min_of R \<le> v \<and> v \<le> max_of R)"

text \<open>\<open>static_cast<R>(v)\<close> and every implicit integral conversion: the value modulo
  \<open>2^width\<close>, read in the range of \<open>R\<close>.\<close>

definition static_cast :: "ity \<Rightarrow> int \<Rightarrow> int" where
  "static_cast R v =
     (if is_signed R
      then (v + 2 ^ (width R - 1)) mod 2 ^ width R - 2 ^ (width R - 1)
      else v mod 2 ^ width R)"

fun make_unsigned :: "ity \<Rightarrow> ity" where
  "make_unsigned U8 = U8"
| "make_unsigned I8 = U8"
| "make_unsigned U16 = U16"
| "make_unsigned I16 = U16"
| "make_unsigned U32 = U32"
| "make_unsigned I32 = U32"
| "make_unsigned U64 = U64"
| "make_unsigned I64 = U64"

section \<open>The native operators\<close>

text \<open>
  An operand of a native operator is a value with its static type.  The integral
  promotions take every type narrower than \<open>int\<close> (32 bits) to \<open>int\<close>; the usual
  arithmetic conversions then pick the wider type, and the unsigned one among two of the
  same width.  An operator whose behaviour is undefined at its operands (signed overflow,
  a zero divisor, \<open>min / -1\<close>, \<open>min % -1\<close>, a shift count out of range) yields \<open>None\<close>.
\<close>

type_synonym cval = "ity \<times> int"

fun promote :: "ity \<Rightarrow> ity" where
  "promote U8 = I32"
| "promote I8 = I32"
| "promote U16 = I32"
| "promote I16 = I32"
| "promote U32 = U32"
| "promote I32 = I32"
| "promote U64 = U64"
| "promote I64 = I64"

definition common_type :: "ity \<Rightarrow> ity \<Rightarrow> ity" where
  "common_type A B =
     (let A' = promote A; B' = promote B
      in if A' = B' then A'
         else if width A' = width B' then make_unsigned A'
         else if width B' < width A' then A' else B')"

definition arith :: "(int \<Rightarrow> int \<Rightarrow> int) \<Rightarrow> cval \<Rightarrow> cval \<Rightarrow> cval option" where
  "arith f x y =
     (let C = common_type (fst x) (fst y);
          r = f (static_cast C (snd x)) (static_cast C (snd y))
      in if is_signed C
         then (if in_range C r then Some (C, r) else None)
         else Some (C, static_cast C r))"

definition c_add :: "cval \<Rightarrow> cval \<Rightarrow> cval option" where
  "c_add x y = arith (\<lambda>a b. a + b) x y"

definition c_sub :: "cval \<Rightarrow> cval \<Rightarrow> cval option" where
  "c_sub x y = arith (\<lambda>a b. a - b) x y"

definition c_mul :: "cval \<Rightarrow> cval \<Rightarrow> cval option" where
  "c_mul x y = arith (\<lambda>a b. a * b) x y"

text \<open>\<open>/\<close> truncates towards zero; \<open>%\<close> takes the sign of the dividend.\<close>

definition c_div :: "cval \<Rightarrow> cval \<Rightarrow> cval option" where
  "c_div x y =
     (let C = common_type (fst x) (fst y)
      in if static_cast C (snd y) = 0 then None else arith (\<lambda>a b. a sdiv b) x y)"

definition c_mod :: "cval \<Rightarrow> cval \<Rightarrow> cval option" where
  "c_mod x y =
     (let C = common_type (fst x) (fst y);
          a = static_cast C (snd x); b = static_cast C (snd y)
      in if b = 0 then None
         else if is_signed C \<and> a = min_of C \<and> b = - 1 then None
         else Some (C, a smod b))"

definition c_neg :: "cval \<Rightarrow> cval option" where
  "c_neg x = arith (\<lambda>a b. a - b) (promote (fst x), 0) x"

definition c_less :: "cval \<Rightarrow> cval \<Rightarrow> bool" where
  "c_less x y =
     (let C = common_type (fst x) (fst y)
      in static_cast C (snd x) < static_cast C (snd y))"

definition c_greater :: "cval \<Rightarrow> cval \<Rightarrow> bool" where
  "c_greater x y = c_less y x"

definition c_eq :: "cval \<Rightarrow> cval \<Rightarrow> bool" where
  "c_eq x y =
     (let C = common_type (fst x) (fst y)
      in static_cast C (snd x) = static_cast C (snd y))"

text \<open>The shifts promote each operand on its own; the result has the promoted type of the
  left operand.  A count that is negative or not below the width of that type is
  undefined.  \<open><<\<close> on a signed left operand is undefined when the operand is negative
  or the product does not fit the corresponding unsigned type; a product that fits is
  converted to the signed type.  \<open>>>\<close> is the quotient by the power of two, rounded
  down.\<close>

definition c_shl :: "cval \<Rightarrow> cval \<Rightarrow> cval option" where
  "c_shl x y =
     (let P = promote (fst x); a = static_cast P (snd x);
          n = static_cast (promote (fst y)) (snd y)
      in if n < 0 \<or> int (width P) \<le> n then None
         else if is_signed P \<and> (a < 0 \<or> max_of (make_unsigned P) < a * 2 ^ nat n) then None
         else Some (P, static_cast P (a * 2 ^ nat n)))"

definition c_shr :: "cval \<Rightarrow> cval \<Rightarrow> cval option" where
  "c_shr x y =
     (let P = promote (fst x); a = static_cast P (snd x);
          n = static_cast (promote (fst y)) (snd y)
      in if n < 0 \<or> int (width P) \<le> n then None
         else Some (P, a div 2 ^ nat n))"

text \<open>The bitwise operators work on the two's complement patterns of the converted
  operands.\<close>

definition c_or :: "cval \<Rightarrow> cval \<Rightarrow> cval" where
  "c_or x y =
     (let C = common_type (fst x) (fst y)
      in (C, static_cast C (snd x) OR static_cast C (snd y)))"

definition c_xor :: "cval \<Rightarrow> cval \<Rightarrow> cval" where
  "c_xor x y =
     (let C = common_type (fst x) (fst y)
      in (C, static_cast C (snd x) XOR static_cast C (snd y)))"

definition c_and :: "cval \<Rightarrow> cval \<Rightarrow> cval" where
  "c_and x y =
     (let C = common_type (fst x) (fst y)
      in (C, static_cast C (snd x) AND static_cast C (snd y)))"

text \<open>A literal such as \<open>0\<close> or \<open>-1\<close> has type \<open>int\<close>.\<close>

definition lit :: "int \<Rightarrow> cval" where
  "lit n = (I32, n)"

section \<open>Results\<close>

text \<open>Modelled from the spec: the header \<open>exception.hpp\<close> with the enumeration
  \<open>safe_numerics_error\<close> is not among the sources; these are the error kinds of the
  closed enumeration the spec lists, under the names the code uses.\<close>

datatype safe_numerics_error =
    positive_overflow_error
  | negative_overflow_error
  | range_error
  | domain_error
  | undefined_behavior
  | implementation_defined_behavior

text \<open>Modelled from the spec: \<open>checked_result.hpp\<close> is not among the sources; a
  \<open>checked_result<R>\<close> is either a value of \<open>R\<close> or an error kind with its message.
  Building one from a value of another integer type converts the value to \<open>R\<close>
  implicitly (\<open>ok R\<close>).\<close>

datatype checked_result = Ok int | Err safe_numerics_error string

definition ok :: "ity \<Rightarrow> cval \<Rightarrow> checked_result" where
  "ok R x = Ok (static_cast R (snd x))"

fun exception :: "checked_result \<Rightarrow> bool" where
  "exception (Ok v) = False"
| "exception (Err e m) = True"

text \<open>The conversion of a \<open>checked_result<R>\<close> that holds no exception to its \<open>R\<close>.\<close>

fun value_of :: "checked_result \<Rightarrow> int" where
  "value_of (Ok v) = v"
| "value_of (Err e m) = 0"

section \<open>Comparison across types\<close>

text \<open>Modelled from the spec: \<open>safe_compare.hpp\<close> is not among the sources.  Its contract
  is that \<open>less_than\<close>, \<open>greater_than\<close> and \<open>equal\<close> return the mathematically correct
  boolean over the integers, whatever the types of the operands.\<close>

definition safe_compare_less_than :: "cval \<Rightarrow> cval \<Rightarrow> bool" where
  "safe_compare_less_than x y = (snd x < snd y)"

definition safe_compare_greater_than :: "cval \<Rightarrow> cval \<Rightarrow> bool" where
  "safe_compare_greater_than x y = (snd y < snd x)"

section \<open>Checked conversion\<close>

text \<open>The four overloads of \<open>cast_impl_detail::cast_impl\<close>, by the signedness of \<open>R\<close>
  and of \<open>T\<close>.\<close>

definition cast_impl_signed_signed :: "ity \<Rightarrow> ity \<Rightarrow> int \<Rightarrow> checked_result" where
  "cast_impl_signed_signed R T t =
     (if safe_compare_greater_than (T, t) (R, max_of R)
      then Err positive_overflow_error ''converted signed value too large''
      else if safe_compare_less_than (T, t) (R, min_of R)
      then Err negative_overflow_error ''converted signed value too small''
      else Ok (static_cast R t))"

definition cast_impl_signed_unsigned :: "ity \<Rightarrow> ity \<Rightarrow> int \<Rightarrow> checked_result" where
  "cast_impl_signed_unsigned R T t =
     (if safe_compare_greater_than (T, t) (R, max_of R)
      then Err positive_overflow_error ''converted unsigned value too large''
      else Ok (static_cast R t))"

definition cast_impl_unsigned_unsigned :: "ity \<Rightarrow> ity \<Rightarrow> int \<Rightarrow> checked_result" where
  "cast_impl_unsigned_unsigned R T t =
     (if safe_compare_greater_than (T, t) (R, max_of R)
      then Err positive_overflow_error ''converted unsigned value too large''
      else Ok (static_cast R t))"

definition cast_impl_unsigned_signed :: "ity \<Rightarrow> ity \<Rightarrow> int \<Rightarrow> checked_result" where
  "cast_impl_unsigned_signed R T t =
     (if safe_compare_less_than (T, t) (lit 0)
      then Err domain_error ''converted negative value to unsigned''
      else if safe_compare_greater_than (T, t) (R, max_of R)
      then Err positive_overflow_error ''converted signed value too large''
      else Ok (static_cast R t))"

definition cast :: "ity \<Rightarrow> ity \<Rightarrow> int \<Rightarrow> checked_result" where
  "cast R T t =
     (if is_signed R
      then (if is_signed T then cast_impl_signed_signed R T t
            else cast_impl_signed_unsigned R T t)
      else (if is_signed T then cast_impl_unsigned_signed R T t
            else cast_impl_unsigned_unsigned R T t))"

section \<open>Checked addition\<close>

text \<open>\<open>add_impl_detail::add\<close> for an unsigned and for a signed \<open>R\<close>.  The operands are
  values of \<open>R\<close>; the native operators promote them first.  \<open>&&\<close> evaluates its right
  operand only when the left one holds.\<close>

definition add_impl_unsigned :: "ity \<Rightarrow> int \<Rightarrow> int \<Rightarrow> checked_result option" where
  "add_impl_unsigned R t u = do {
     d \<leftarrow> c_sub (R, max_of R) (R, u);
     if c_less d (R, t)
     then Some (Err positive_overflow_error ''addition result too large'')
     else do { s \<leftarrow> c_add (R, t) (R, u); Some (ok R s) }
   }"

definition add_impl_signed :: "ity \<Rightarrow> int \<Rightarrow> int \<Rightarrow> checked_result option" where
  "add_impl_signed R t u = do {
     hi \<leftarrow> (if c_greater (R, u) (lit 0)
            then do { d \<leftarrow> c_sub (R, max_of R) (R, u); Some (c_greater (R, t) d) }
            else Some False);
     if hi then Some (Err positive_overflow_error ''addition result too large'')
     else do {
       lo \<leftarrow> (if c_less (R, u) (lit 0)
              then do { d \<leftarrow> c_sub (R, min_of R) (R, u); Some (c_less (R, t) d) }
              else Some False);
       if lo then Some (Err negative_overflow_error ''addition result too low'')
       else do { s \<leftarrow> c_add (R, t) (R, u); Some (ok R s) }
     }
   }"

definition add :: "ity \<Rightarrow> ity \<Rightarrow> ity \<Rightarrow> int \<Rightarrow> int \<Rightarrow> checked_result option" where
  "add R T U t u =
     (let rt = cast R T t in
      if exception rt then Some rt
      else let ru = cast R U u in
        if exception ru then Some ru
        else if is_signed R then add_impl_signed R (value_of rt) (value_of ru)
        else add_impl_unsigned R (value_of rt) (value_of ru))"

section \<open>Checked subtraction\<close>

definition subtract_impl_unsigned :: "ity \<Rightarrow> int \<Rightarrow> int \<Rightarrow> checked_result option" where
  "subtract_impl_unsigned R t u =
     (if c_less (R, t) (R, u)
      then Some (Err range_error ''subtraction result cannot be negative'')
      else do { s \<leftarrow> c_sub (R, t) (R, u); Some (ok R s) })"

definition subtract_impl_signed :: "ity \<Rightarrow> int \<Rightarrow> int \<Rightarrow> checked_result option" where
  "subtract_impl_signed R t u = do {
     c1 \<leftarrow> (if c_greater (R, u) (lit 0)
            then do { d \<leftarrow> c_add (R, min_of R) (R, u); Some (c_less (R, t) d) }
            else Some False);
     if c1
     then Some (Err positive_overflow_error ''subtraction result overflows result type'')
     else do {
       c2 \<leftarrow> (if c_less (R, u) (lit 0)
              then do { d \<leftarrow> c_add (R, max_of R) (R, u); Some (c_greater (R, t) d) }
              else Some False);
       if c2
       then Some (Err negative_overflow_error ''subtraction result overflows result type'')
       else do { s \<leftarrow> c_sub (R, t) (R, u); Some (ok R s) }
     }
   }"

text \<open>\<open>subtract\<close> hands the original \<open>t\<close> and \<open>u\<close> (not the cast results) to the detail
  function, whose parameters have type \<open>R\<close>: they are converted implicitly.\<close>

definition subtract :: "ity \<Rightarrow> ity \<Rightarrow> ity \<Rightarrow> int \<Rightarrow> int \<Rightarrow> checked_result option" where
  "subtract R T U t u =
     (let rt = cast R T t in
      if exception rt then Some rt
      else let ru = cast R U u in
        if exception ru then Some ru
        else if is_signed R then subtract_impl_signed R (static_cast R t) (static_cast R u)
        else subtract_impl_unsigned R (static_cast R t) (static_cast R u))"

section \<open>Checked multiplication\<close>

text \<open>\<open>std::uintmax_t\<close> and \<open>std::intmax_t\<close> are the 64-bit types; \<open>sizeof\<close> counts
  bytes.\<close>

definition uintmax_t :: ity where
  "uintmax_t = U64"

definition intmax_t :: ity where
  "intmax_t = I64"

definition sizeof :: "ity \<Rightarrow> nat" where
  "sizeof R = width R div 8"

text \<open>The four overloads of \<open>multiply_impl_detail::multiply\<close>: unsigned or signed \<open>R\<close>,
  through the wide intermediate type or by division.\<close>

definition multiply_impl_unsigned_wide :: "ity \<Rightarrow> int \<Rightarrow> int \<Rightarrow> checked_result option" where
  "multiply_impl_unsigned_wide R t u = do {
     p \<leftarrow> c_mul (uintmax_t, static_cast uintmax_t t) (uintmax_t, static_cast uintmax_t u);
     if c_greater p (R, max_of R)
     then Some (Err positive_overflow_error ''multiplication overflow'')
     else do { s \<leftarrow> c_mul (R, t) (R, u); Some (ok R s) }
   }"

definition multiply_impl_unsigned_narrow :: "ity \<Rightarrow> int \<Rightarrow> int \<Rightarrow> checked_result option" where
  "multiply_impl_unsigned_narrow R t u = do {
     c \<leftarrow> (if c_greater (R, u) (lit 0)
           then do { q \<leftarrow> c_div (R, max_of R) (R, u); Some (c_greater (R, t) q) }
           else Some False);
     if c then Some (Err positive_overflow_error ''multiplication overflow'')
     else do { s \<leftarrow> c_mul (R, t) (R, u); Some (ok R s) }
   }"

definition multiply_impl_signed_wide :: "ity \<Rightarrow> int \<Rightarrow> int \<Rightarrow> checked_result option" where
  "multiply_impl_signed_wide R t u = do {
     p \<leftarrow> c_mul (intmax_t, static_cast intmax_t t) (intmax_t, static_cast intmax_t u);
     if c_greater p (intmax_t, static_cast intmax_t (max_of R))
     then Some (Err positive_overflow_error ''multiplication overflow'')
     else do {
       p' \<leftarrow> c_mul (intmax_t, static_cast intmax_t t) (intmax_t, static_cast intmax_t u);
       if c_less p' (intmax_t, static_cast intmax_t (min_of R))
       then Some (Err negative_overflow_error ''multiplication overflow'')
       else do { s \<leftarrow> c_mul (R, t) (R, u); Some (ok R s) }
     }
   }"

definition multiply_impl_signed_narrow :: "ity \<Rightarrow> int \<Rightarrow> int \<Rightarrow> checked_result option" where
  "multiply_impl_signed_narrow R t u =
     (if c_greater (R, t) (lit 0) then
        (if c_greater (R, u) (lit 0) then do {
           q \<leftarrow> c_div (R, max_of R) (R, u);
           if c_greater (R, t) q
           then Some (Err positive_overflow_error ''multiplication overflow'')
           else do { s \<leftarrow> c_mul (R, t) (R, u); Some (ok R s) } }
         else do {
           q \<leftarrow> c_div (R, min_of R) (R, t);
           if c_less (R, u) q
           then Some (Err negative_overflow_error ''multiplication overflow'')
           else do { s \<leftarrow> c_mul (R, t) (R, u); Some (ok R s) } })
      else
        (if c_greater (R, u) (lit 0) then do {
           q \<leftarrow> c_div (R, min_of R) (R, u);
           if c_less (R, t) q
           then Some (Err negative_overflow_error ''multiplication overflow'')
           else do { s \<leftarrow> c_mul (R, t) (R, u); Some (ok R s) } }
         else do {
           c \<leftarrow> (if \<not> c_eq (R, t) (lit 0)
                 then do { q \<leftarrow> c_div (R, max_of R) (R, t); Some (c_less (R, u) q) }
                 else Some False);
           if c then Some (Err positive_overflow_error ''multiplication overflow'')
           else do { s \<leftarrow> c_mul (R, t) (R, u); Some (ok R s) } }))"

definition multiply :: "ity \<Rightarrow> ity \<Rightarrow> ity \<Rightarrow> int \<Rightarrow> int \<Rightarrow> checked_result option" where
  "multiply R T U t u =
     (let rt = cast R T t in
      if exception rt then Some rt
      else let ru = cast R U u in
        if exception ru then Some ru
        else if is_signed R then
          (if sizeof uintmax_t div 2 < sizeof R
           then multiply_impl_signed_narrow R (static_cast R t) (static_cast R u)
           else multiply_impl_signed_wide R (static_cast R t) (static_cast R u))
        else
          (if sizeof uintmax_t div 2 < sizeof R
           then multiply_impl_unsigned_narrow R (static_cast R t) (static_cast R u)
           else multiply_impl_unsigned_wide R (static_cast R t) (static_cast R u)))"

section \<open>Checked division\<close>

text \<open>\<open>divide_impl_detail::divide\<close> for an unsigned and for a signed \<open>R\<close>, and \<open>divide\<close>
  itself (\<open>divide_checked\<close> here).\<close>

definition divide_impl_unsigned :: "ity \<Rightarrow> int \<Rightarrow> int \<Rightarrow> checked_result option" where
  "divide_impl_unsigned R t u = do { q \<leftarrow> c_div (R, t) (R, u); Some (ok R q) }"

definition divide_impl_signed :: "ity \<Rightarrow> int \<Rightarrow> int \<Rightarrow> checked_result option" where
  "divide_impl_signed R t u =
     (if c_eq (R, u) (lit (- 1)) \<and> c_eq (R, t) (R, min_of R)
      then Some (Err range_error ''result cannot be represented'')
      else do { q \<leftarrow> c_div (R, t) (R, u); Some (ok R q) })"

definition divide_checked :: "ity \<Rightarrow> ity \<Rightarrow> ity \<Rightarrow> int \<Rightarrow> int \<Rightarrow> checked_result option" where
  "divide_checked R T U t u =
     (if c_eq (U, u) (lit 0) then Some (Err domain_error ''divide by zero'')
      else let tx = cast R T t; ux = cast R U u in
        if exception tx \<or> exception ux
        then Some (Err domain_error ''failure converting argument types'')
        else if is_signed R then divide_impl_signed R (value_of tx) (value_of ux)
        else divide_impl_unsigned R (value_of tx) (value_of ux))"

section \<open>Checked modulus\<close>

text \<open>The member template \<open>abs\<close>: its result type is \<open>std::make_unsigned_t<Tx>\<close>, so the
  value of either branch is converted to that type on return.\<close>

definition abs_tx :: "ity \<Rightarrow> int \<Rightarrow> cval option" where
  "abs_tx Tx t =
     (if c_less (Tx, t) (lit 0) \<and> \<not> c_eq (Tx, t) (Tx, min_of Tx)
      then do { n \<leftarrow> c_neg (Tx, t);
                Some (make_unsigned Tx, static_cast (make_unsigned Tx) (snd n)) }
      else Some (make_unsigned Tx, static_cast (make_unsigned Tx) t))"

definition modulus :: "ity \<Rightarrow> ity \<Rightarrow> ity \<Rightarrow> int \<Rightarrow> int \<Rightarrow> checked_result option" where
  "modulus R T U t u =
     (if c_eq (lit 0) (U, u) then Some (Err domain_error ''denominator is zero'')
      else do { a \<leftarrow> abs_tx U u; m \<leftarrow> c_mod (T, t) a; Some (ok R m) })"

section \<open>Bit utilities\<close>

text \<open>Modelled from the spec: \<open>utility.hpp\<close> is not among the sources.
  \<open>significant_bits(x)\<close> is the position of the highest set bit in the absolute value
  of \<open>x\<close>: \<open>floor(log2(|x|)) + 1\<close> for \<open>x \<noteq> 0\<close> and \<open>0\<close> for \<open>x = 0\<close>.  \<open>bits_type<R>\<close>
  is the fixed width of \<open>R\<close>.\<close>

function bit_length :: "int \<Rightarrow> nat" where
  "bit_length n = (if n \<le> 0 then 0 else Suc (bit_length (n div 2)))"
  by pat_completeness auto
termination
  by (relation "measure nat") auto

declare bit_length.simps [simp del]

definition significant_bits :: "int \<Rightarrow> nat" where
  "significant_bits x = bit_length \<bar>x\<bar>"

definition bits_type :: "ity \<Rightarrow> nat" where
  "bits_type R = width R"

section \<open>Checked shifts\<close>

text \<open>\<open>left_shift_integer_detail::left_shift\<close> for an unsigned \<open>T\<close>.  The bound
  \<open>digits - significant_bits(t)\<close> is taken as the difference of the two numbers over the
  integers (the spec's \<open>u > width(R) - significant_bits(t)\<close>, with the code's \<open>digits\<close>); the
  type in which \<open>utility.hpp\<close> returns the count is not among the sources, and every
  integer type gives this difference as long as \<open>significant_bits(t)\<close> does not exceed
  \<open>digits\<close>.  The shift itself is the native one on \<open>t\<close>, in the promoted type of \<open>T\<close>; its
  value is converted to \<open>R\<close>.\<close>

definition left_shift_detail_unsigned ::
  "ity \<Rightarrow> ity \<Rightarrow> ity \<Rightarrow> int \<Rightarrow> int \<Rightarrow> checked_result option" where
  "left_shift_detail_unsigned R T U t u =
     (if safe_compare_greater_than (U, u) (I32, int (digits R) - int (significant_bits t))
      then Some (Err undefined_behavior
                  ''shifting left more bits than available is undefined behavior'')
      else do { s \<leftarrow> c_shl (T, t) (U, u); Some (ok R s) })"

text \<open>\<open>left_shift\<close>.  For a signed \<open>T\<close> the detail function is written out in place: a
  non-negative \<open>t\<close> goes through \<open>checked::left_shift<R>\<close> again as a value of
  \<open>make_unsigned<T>\<close>, a negative one is an error.\<close>

function left_shift :: "ity \<Rightarrow> ity \<Rightarrow> ity \<Rightarrow> int \<Rightarrow> int \<Rightarrow> checked_result option" where
  "left_shift R T U t u =
     (if c_eq (U, u) (lit 0) then Some (ok R (T, t))
      else if c_less (U, u) (lit 0)
      then Some (Err implementation_defined_behavior
                  ''shifting negative amount is implementation defined behavior'')
      else if c_greater (U, u) (lit (int (digits R)))
      then Some (Err implementation_defined_behavior
                  ''shifting more bits than available is implementation defined behavior'')
      else if c_eq (T, t) (lit 0) then Some (cast R T t)
      else if is_signed T then
        (if \<not> c_less (T, t) (lit 0)
         then left_shift R (make_unsigned T) U (static_cast (make_unsigned T) t) u
         else Some (Err undefined_behavior
                     ''shifting a negative value is undefined behavior''))
      else left_shift_detail_unsigned R T U t u)"
  by pat_completeness auto
termination
  by (relation "measure (\<lambda>(R, T, U, t, u). if is_signed T then 1 else 0)")
    (auto, case_tac T, simp_all)

declare left_shift.simps [simp del]

text \<open>The two overloads of \<open>right_shift_integer_detail::right_shift\<close>; \<open>checked::cast<R>\<close>
  is applied to \<open>t >> u\<close>, whose type is the promoted type of \<open>T\<close>.\<close>

definition right_shift_detail_unsigned ::
  "ity \<Rightarrow> ity \<Rightarrow> ity \<Rightarrow> int \<Rightarrow> int \<Rightarrow> checked_result option" where
  "right_shift_detail_unsigned R T U t u =
     do { s \<leftarrow> c_shr (T, t) (U, u); Some (cast R (fst s) (snd s)) }"

definition right_shift_detail_signed ::
  "ity \<Rightarrow> ity \<Rightarrow> ity \<Rightarrow> int \<Rightarrow> int \<Rightarrow> checked_result option" where
  "right_shift_detail_signed R T U t u =
     (if c_less (T, t) (lit 0)
      then Some (Err implementation_defined_behavior
                  ''shifting a negative value is implementation defined behavior'')
      else do { s \<leftarrow> c_shr (T, t) (U, u); Some (cast R (fst s) (snd s)) })"

definition right_shift :: "ity \<Rightarrow> ity \<Rightarrow> ity \<Rightarrow> int \<Rightarrow> int \<Rightarrow> checked_result option" where
  "right_shift R T U t u =
     (if c_eq (U, u) (lit 0) then Some (ok R (T, t))
      else if c_less (U, u) (lit 0)
      then Some (Err implementation_defined_behavior
                  ''shifting negative amount is implementation defined behavior'')
      else if c_greater (U, u) (lit (int (digits R)))
      then Some (Err implementation_defined_behavior
                  ''shifting more bits than available is implementation defined behavior'')
      else if c_eq (T, t) (lit 0) then Some (cast R I32 0)
      else if is_signed T then right_shift_detail_signed R T U t u
      else right_shift_detail_unsigned R T U t u)"

section \<open>Checked bitwise operations\<close>

definition bitwise_or :: "ity \<Rightarrow> ity \<Rightarrow> ity \<Rightarrow> int \<Rightarrow> int \<Rightarrow> checked_result option" where
  "bitwise_or R T U t u =
     (let result_size = max (significant_bits t) (significant_bits u)
      in if bits_type R < result_size
         then Some (Err positive_overflow_error ''result type too small to hold bitwise or'')
         else Some (ok R (c_or (T, t) (U, u))))"

definition bitwise_xor :: "ity \<Rightarrow> ity \<Rightarrow> ity \<Rightarrow> int \<Rightarrow> int \<Rightarrow> checked_result option" where
  "bitwise_xor R T U t u =
     (let result_size = max (significant_bits t) (significant_bits u)
      in if bits_type R < result_size
         then Some (Err positive_overflow_error ''result type too small to hold bitwise or'')
         else Some (ok R (c_xor (T, t) (U, u))))"

definition bitwise_and :: "ity \<Rightarrow> ity \<Rightarrow> ity \<Rightarrow> int \<Rightarrow> int \<Rightarrow> checked_result option" where
  "bitwise_and R T U t u =
     (let result_size = min (significant_bits t) (significant_bits u)
      in if bits_type R < result_size
         then Some (Err positive_overflow_error ''result type too small to hold bitwise or'')
         else Some (ok R (c_and (T, t) (U, u))))"

section \<open>Facts about the types\<close>

lemma min_le_max: "min_of R \<le> max_of R"
  by (cases R) (simp_all add: min_of_def max_of_def)

lemma min_of_unsigned: "\<not> is_signed R \<Longrightarrow> min_of R = 0"
  by (simp add: min_of_def)

lemma min_of_signed_neg: "is_signed R \<Longrightarrow> min_of R < 0"
  by (simp add: min_of_def)

lemma max_of_pos: "0 < max_of R"
  by (cases R) (simp_all add: max_of_def)

lemma static_cast_id: "in_range R v \<Longrightarrow> static_cast R v = v"
  by (cases R) (simp_all add: in_range_def static_cast_def min_of_def max_of_def)


lemma cast_Ok_iff:
  assumes "in_range T t"
  shows "cast R T t = Ok r \<longleftrightarrow> in_range R t \<and> r = t"
proof (cases "in_range R t")
  case True
  then show ?thesis
    using min_of_signed_neg [of R] min_of_unsigned [of R]
    by (auto simp: cast_def cast_impl_signed_signed_def cast_impl_signed_unsigned_def
        cast_impl_unsigned_signed_def cast_impl_unsigned_unsigned_def
        safe_compare_greater_than_def safe_compare_less_than_def lit_def
        static_cast_id in_range_def)
next
  case False
  then show ?thesis
    using assms min_of_unsigned [of R] min_of_unsigned [of T] min_of_signed_neg [of R]
    by (auto simp: cast_def cast_impl_signed_signed_def cast_impl_signed_unsigned_def
        cast_impl_unsigned_signed_def cast_impl_unsigned_unsigned_def
        safe_compare_greater_than_def safe_compare_less_than_def lit_def in_range_def)
qed

section \<open>Facts about the native operators\<close>

lemma common_type_same: "common_type R R = promote R"
  by (simp add: common_type_def)

lemma in_range_promote: "in_range R v \<Longrightarrow> in_range (promote R) v"
  by (cases R) (simp_all add: in_range_def min_of_def max_of_def)

lemma in_range_common_l:
  "in_range A a \<Longrightarrow> is_signed (common_type A B) \<or> 0 \<le> a \<Longrightarrow> in_range (common_type A B) a"
  by (cases A; cases B) (simp_all add: common_type_def in_range_def min_of_def max_of_def)

lemma in_range_common_r:
  "in_range B b \<Longrightarrow> is_signed (common_type A B) \<or> 0 \<le> b \<Longrightarrow> in_range (common_type A B) b"
  by (cases A; cases B) (simp_all add: common_type_def in_range_def min_of_def max_of_def)

lemma conv_common_l:
  "in_range A a \<Longrightarrow> is_signed (common_type A B) \<or> 0 \<le> a \<Longrightarrow> static_cast (common_type A B) a = a"
  by (rule static_cast_id) (rule in_range_common_l)

lemma conv_common_r:
  "in_range B b \<Longrightarrow> is_signed (common_type A B) \<or> 0 \<le> b \<Longrightarrow> static_cast (common_type A B) b = b"
  by (rule static_cast_id) (rule in_range_common_r)

lemma static_cast_zero: "static_cast C 0 = 0"
  by (cases C) (simp_all add: static_cast_def)

lemma common_type_commute: "common_type A B = common_type B A"
  by (cases A; cases B) (simp_all add: common_type_def)

lemma conv_lit0:
  assumes "in_range R a"
  shows "static_cast (common_type R I32) a = a"
proof (cases "0 \<le> a")
  case True
  then show ?thesis using assms by (simp add: conv_common_l)
next
  case False
  then have "is_signed R" using assms by (cases "is_signed R") (simp_all add: in_range_def min_of_def)
  then have "is_signed (common_type R I32)" by (cases R) (simp_all add: common_type_def)
  then show ?thesis using assms by (simp add: conv_common_l)
qed

lemma c_less_lit0: "in_range R a \<Longrightarrow> c_less (R, a) (lit 0) = (a < 0)"
  by (simp add: c_less_def lit_def conv_lit0 static_cast_zero)

lemma promote_idem: "promote (promote R) = promote R"
  by (cases R) simp_all

lemma common_type_promote_l: "common_type (promote R) R = promote R"
  by (simp add: common_type_def promote_idem)

lemma common_type_promote_r: "common_type R (promote R) = promote R"
  by (simp add: common_type_def promote_idem)

lemma arith_same_ok:
  assumes "in_range R a" "in_range R b" "in_range R (f a b)"
  shows "arith f (R, a) (R, b) = Some (promote R, f a b)"
  using assms
  by (simp add: arith_def Let_def common_type_same static_cast_id in_range_promote)

lemma c_less_same: "in_range R a \<Longrightarrow> in_range R b \<Longrightarrow> c_less (R, a) (R, b) = (a < b)"
  by (simp add: c_less_def common_type_same static_cast_id in_range_promote)

lemma c_less_promote_l:
  "in_range R a \<Longrightarrow> in_range R b \<Longrightarrow> c_less (promote R, a) (R, b) = (a < b)"
  by (simp add: c_less_def common_type_promote_l static_cast_id in_range_promote)

lemma c_less_promote_r:
  "in_range R a \<Longrightarrow> in_range R b \<Longrightarrow> c_less (R, a) (promote R, b) = (a < b)"
  by (simp add: c_less_def common_type_promote_r static_cast_id in_range_promote)

lemma c_eq_same: "in_range R a \<Longrightarrow> in_range R b \<Longrightarrow> c_eq (R, a) (R, b) = (a = b)"
  by (simp add: c_eq_def common_type_same static_cast_id in_range_promote)

lemma c_greater_lit0: "in_range R a \<Longrightarrow> c_greater (R, a) (lit 0) = (0 < a)"
  by (simp add: c_greater_def c_less_def lit_def conv_lit0 static_cast_zero
      common_type_commute [of I32 R])

lemma c_eq_lit0: "in_range R a \<Longrightarrow> c_eq (R, a) (lit 0) = (a = 0)"
  by (simp add: c_eq_def lit_def conv_lit0 static_cast_zero)

lemma c_eq_lit0': "in_range R a \<Longrightarrow> c_eq (lit 0) (R, a) = (a = 0)"
  by (auto simp: c_eq_def lit_def conv_lit0 static_cast_zero common_type_commute [of I32 R])

lemma c_greater_same: "in_range R a \<Longrightarrow> in_range R b \<Longrightarrow> c_greater (R, a) (R, b) = (b < a)"
  by (simp add: c_greater_def c_less_same)

lemma c_greater_promote_r:
  "in_range R a \<Longrightarrow> in_range R b \<Longrightarrow> c_greater (R, a) (promote R, b) = (b < a)"
  by (simp add: c_greater_def c_less_promote_l)

lemma min_max_signed: "is_signed R \<Longrightarrow> min_of R = - max_of R - 1"
  by (cases R) (simp_all add: min_of_def max_of_def)

lemma sdiv_in_range:
  assumes "in_range R t" "in_range R u" "u \<noteq> 0" "\<not> (is_signed R \<and> t = min_of R \<and> u = - 1)"
  shows "in_range R (t sdiv u)"
proof (cases "is_signed R")
  case False
  then have "0 \<le> t" "0 < u" using assms by (simp_all add: in_range_def min_of_def)
  then have "t sdiv u = t div u" by (simp add: signed_divide_int_def sgn_if)
  moreover have "0 \<le> t div u"
    using \<open>0 \<le> t\<close> \<open>0 < u\<close> by (simp add: pos_imp_zdiv_nonneg_iff)
  moreover have "t div u \<le> t"
    using \<open>0 \<le> t\<close> by (cases "t = 0") (simp_all add: int_div_le_self)
  ultimately show ?thesis using assms False by (simp add: in_range_def min_of_def)
next
  case True
  note mm = min_max_signed [OF True]
  have b: "\<bar>t sdiv u\<bar> \<le> \<bar>t\<bar>"
    using sdiv_int_range [of t u] by auto
  show ?thesis
  proof (cases "t = min_of R")
    case False
    then have "\<bar>t\<bar> \<le> max_of R" using assms mm unfolding in_range_def by linarith
    with b show ?thesis using mm unfolding in_range_def by linarith
  next
    case tmin: True
    with assms True have u1: "u \<noteq> - 1" by simp
    show ?thesis
    proof (cases "u = 1")
      case True
      then show ?thesis using assms by simp
    next
      case False
      with u1 assms have "2 \<le> \<bar>u\<bar>" by arith
      have tpos: "0 < \<bar>t\<bar>" using tmin min_of_signed_neg [OF True] by simp
      have "\<bar>t\<bar> div \<bar>u\<bar> < \<bar>t\<bar>"
        using tpos \<open>2 \<le> \<bar>u\<bar>\<close> by (intro int_div_less_self) simp_all
      moreover have "\<bar>t sdiv u\<bar> = \<bar>t\<bar> div \<bar>u\<bar>"
        using assms tpos by (simp add: signed_divide_int_def abs_mult sgn_if pos_imp_zdiv_nonneg_iff)
      ultimately have "\<bar>t sdiv u\<bar> \<le> max_of R"
        using tmin mm max_of_pos [of R] by linarith
      then show ?thesis using mm unfolding in_range_def by linarith
    qed
  qed
qed

lemma c_div_same:
  assumes "in_range R a" "in_range R b" "b \<noteq> 0" "in_range R (a sdiv b)"
  shows "c_div (R, a) (R, b) = Some (promote R, a sdiv b)"
  using assms
  by (simp add: c_div_def Let_def common_type_same static_cast_id in_range_promote arith_same_ok)

lemma c_eq_lit_m1: "is_signed R \<Longrightarrow> in_range R a \<Longrightarrow> c_eq (R, a) (lit (- 1)) = (a = - 1)"
  by (cases R)
    (simp_all add: c_eq_def lit_def common_type_def static_cast_id in_range_def min_of_def max_of_def)

section \<open>Facts about the checked operations\<close>

lemma ok_in_range: "in_range R v \<Longrightarrow> ok R (P, v) = Ok v"
  by (simp add: ok_def static_cast_id)

lemma add_impl_unsigned_eq:
  assumes "\<not> is_signed R" "in_range R t" "in_range R u"
  shows "add_impl_unsigned R t u =
    Some (if max_of R < t + u then Err positive_overflow_error ''addition result too large''
          else Ok (t + u))"
proof -
  have m: "in_range R (max_of R)" using min_le_max[of R] by (simp add: in_range_def)
  have d: "in_range R (max_of R - u)" using assms by (simp add: in_range_def min_of_def)
  have s: "\<not> max_of R < t + u \<Longrightarrow> in_range R (t + u)" using assms by (simp add: in_range_def min_of_def)
  show ?thesis
    using assms m d s
    by (auto simp: add_impl_unsigned_def c_sub_def c_add_def arith_same_ok c_less_promote_l ok_in_range)
qed

lemma add_impl_signed_eq:
  assumes "is_signed R" "in_range R t" "in_range R u"
  shows "add_impl_signed R t u =
    Some (if max_of R < t + u then Err positive_overflow_error ''addition result too large''
          else if t + u < min_of R then Err negative_overflow_error ''addition result too low''
          else Ok (t + u))"
proof -
  have m: "in_range R (max_of R)" "in_range R (min_of R)"
    using min_le_max[of R] by (simp_all add: in_range_def)
  have s: "\<not> max_of R < t + u \<Longrightarrow> \<not> t + u < min_of R \<Longrightarrow> in_range R (t + u)"
    by (simp add: in_range_def)
  consider (pos) "0 < u" | (neg) "u < 0" | (zero) "u = 0" by linarith
  then show ?thesis
  proof cases
    case pos
    have d: "in_range R (max_of R - u)"
      using assms pos min_of_signed_neg[of R] by (simp add: in_range_def)
    have lo: "\<not> t + u < min_of R" using assms pos by (simp add: in_range_def)
    show ?thesis
      using assms m d s pos lo
      by (simp add: add_impl_signed_def c_sub_def c_add_def arith_same_ok c_greater_promote_r
          ok_in_range c_greater_lit0 c_less_lit0 less_diff_eq)
  next
    case neg
    have d: "in_range R (min_of R - u)"
      using assms neg max_of_pos[of R] by (simp add: in_range_def)
    have hi: "\<not> max_of R < t + u" using assms neg by (simp add: in_range_def)
    show ?thesis
      using assms m d s neg hi
      by (simp add: add_impl_signed_def c_sub_def c_add_def arith_same_ok c_less_promote_r
          ok_in_range c_greater_lit0 c_less_lit0 less_diff_eq)
  next
    case zero
    have "\<not> max_of R < t + u" "\<not> t + u < min_of R"
      using assms zero by (simp_all add: in_range_def)
    then show ?thesis
      using assms s zero
      by (simp add: add_impl_signed_def c_add_def arith_same_ok ok_in_range
          c_greater_lit0 c_less_lit0)
  qed
qed

lemma exception_cast: "in_range T t \<Longrightarrow> exception (cast R T t) = (\<not> in_range R t)"
  using cast_Ok_iff [of T t R] by (cases "cast R T t") auto

lemma value_of_cast: "in_range T t \<Longrightarrow> in_range R t \<Longrightarrow> value_of (cast R T t) = t"
  using cast_Ok_iff [of T t R t] by simp

lemma subtract_impl_unsigned_eq:
  assumes "\<not> is_signed R" "in_range R t" "in_range R u"
  shows "subtract_impl_unsigned R t u =
    Some (if t < u then Err range_error ''subtraction result cannot be negative''
          else Ok (t - u))"
proof -
  have s: "\<not> t < u \<Longrightarrow> in_range R (t - u)"
    using assms by (simp add: in_range_def min_of_def)
  show ?thesis
    using assms s
    by (simp add: subtract_impl_unsigned_def c_sub_def arith_same_ok c_less_same ok_in_range)
qed

lemma subtract_impl_signed_eq:
  assumes "is_signed R" "in_range R t" "in_range R u"
  shows "subtract_impl_signed R t u =
    Some (if t - u < min_of R
          then Err positive_overflow_error ''subtraction result overflows result type''
          else if max_of R < t - u
          then Err negative_overflow_error ''subtraction result overflows result type''
          else Ok (t - u))"
proof -
  have m: "in_range R (max_of R)" "in_range R (min_of R)"
    using min_le_max[of R] by (simp_all add: in_range_def)
  have s: "\<not> max_of R < t - u \<Longrightarrow> \<not> t - u < min_of R \<Longrightarrow> in_range R (t - u)"
    by (simp add: in_range_def)
  consider (pos) "0 < u" | (neg) "u < 0" | (zero) "u = 0" by linarith
  then show ?thesis
  proof cases
    case pos
    have d: "in_range R (min_of R + u)"
      using assms pos min_of_signed_neg[of R] by (simp add: in_range_def)
    have hi: "\<not> max_of R < t - u" using assms pos by (simp add: in_range_def)
    show ?thesis
      using assms m d s pos hi
      by (simp add: subtract_impl_signed_def c_sub_def c_add_def arith_same_ok
          c_less_promote_r ok_in_range c_greater_lit0 c_less_lit0 diff_less_eq)
  next
    case neg
    have d: "in_range R (max_of R + u)"
      using assms neg max_of_pos[of R] by (simp add: in_range_def)
    have lo: "\<not> t - u < min_of R" using assms neg by (simp add: in_range_def)
    show ?thesis
      using assms m d s neg lo
      by (simp add: subtract_impl_signed_def c_sub_def c_add_def arith_same_ok
          c_greater_promote_r ok_in_range c_greater_lit0 c_less_lit0 less_diff_eq)
  next
    case zero
    have "\<not> max_of R < t - u" "\<not> t - u < min_of R"
      using assms zero by (simp_all add: in_range_def)
    then show ?thesis
      using assms s zero
      by (simp add: subtract_impl_signed_def c_sub_def arith_same_ok ok_in_range
          c_greater_lit0 c_less_lit0)
  qed
qed

lemma add_eq:
  assumes "in_range T t" "in_range U u"
  shows "add R T U t u =
    Some (if \<not> in_range R t then cast R T t
          else if \<not> in_range R u then cast R U u
          else if max_of R < t + u
          then Err positive_overflow_error ''addition result too large''
          else if t + u < min_of R
          then Err negative_overflow_error ''addition result too low''
          else Ok (t + u))"
proof (cases "in_range R t \<and> in_range R u")
  case True
  then have "\<not> is_signed R \<Longrightarrow> \<not> t + u < min_of R"
    by (simp add: in_range_def min_of_def)
  with True show ?thesis
    using assms
    by (simp add: add_def Let_def exception_cast value_of_cast add_impl_signed_eq
        add_impl_unsigned_eq)
next
  case False
  then show ?thesis
    using assms by (auto simp: add_def Let_def exception_cast)
qed

lemma subtract_eq:
  assumes "in_range T t" "in_range U u"
  shows "subtract R T U t u =
    Some (if \<not> in_range R t then cast R T t
          else if \<not> in_range R u then cast R U u
          else if is_signed R then
            (if t - u < min_of R
             then Err positive_overflow_error ''subtraction result overflows result type''
             else if max_of R < t - u
             then Err negative_overflow_error ''subtraction result overflows result type''
             else Ok (t - u))
          else
            (if t < u then Err range_error ''subtraction result cannot be negative''
             else Ok (t - u)))"
proof (cases "in_range R t \<and> in_range R u")
  case True
  then show ?thesis
    using assms
    by (simp add: subtract_def Let_def exception_cast static_cast_id subtract_impl_signed_eq
        subtract_impl_unsigned_eq)
next
  case False
  then show ?thesis
    using assms by (auto simp: subtract_def Let_def exception_cast)
qed

lemma divide_impl_unsigned_eq:
  assumes "\<not> is_signed R" "in_range R t" "in_range R u" "u \<noteq> 0"
  shows "divide_impl_unsigned R t u = Some (Ok (t sdiv u))"
  using assms sdiv_in_range [of R t u]
  by (simp add: divide_impl_unsigned_def c_div_same ok_in_range)

lemma divide_impl_signed_eq:
  assumes "is_signed R" "in_range R t" "in_range R u" "u \<noteq> 0"
  shows "divide_impl_signed R t u =
    Some (if u = - 1 \<and> t = min_of R then Err range_error ''result cannot be represented''
          else Ok (t sdiv u))"
proof -
  have m: "in_range R (min_of R)" using min_le_max [of R] by (simp add: in_range_def)
  show ?thesis
    using assms m sdiv_in_range [of R t u]
    by (auto simp: divide_impl_signed_def c_div_same ok_in_range c_eq_lit_m1 c_eq_same)
qed

lemma divide_eq:
  assumes "in_range T t" "in_range U u"
  shows "divide_checked R T U t u =
    Some (if u = 0 then Err domain_error ''divide by zero''
          else if \<not> in_range R t \<or> \<not> in_range R u
          then Err domain_error ''failure converting argument types''
          else if is_signed R \<and> u = - 1 \<and> t = min_of R
          then Err range_error ''result cannot be represented''
          else Ok (t sdiv u))"
  using assms
  by (auto simp: divide_checked_def Let_def c_eq_lit0 exception_cast value_of_cast
      divide_impl_signed_eq divide_impl_unsigned_eq)

lemma div_less_iff_int:
  fixes m d x :: int
  assumes "0 < d"
  shows "(m div d < x) = (m < x * d)"
proof
  assume "m div d < x"
  then have "m div d + 1 \<le> x" by simp
  then have "(m div d + 1) * d \<le> x * d" using assms by (simp add: mult_right_mono)
  moreover have "m < (m div d + 1) * d"
  proof -
    have "m = (m div d) * d + m mod d" by simp
    moreover have "m mod d < d" using assms by (rule pos_mod_bound)
    moreover have "(m div d + 1) * d = (m div d) * d + d" by (simp add: algebra_simps)
    ultimately show ?thesis by linarith
  qed
  ultimately show "m < x * d" by linarith
next
  assume a: "m < x * d"
  show "m div d < x"
  proof (rule ccontr)
    assume "\<not> m div d < x"
    then have "x \<le> m div d" by simp
    then have "x * d \<le> (m div d) * d" using assms by (simp add: mult_right_mono)
    moreover have "(m div d) * d \<le> m"
    proof -
      have "m = (m div d) * d + m mod d" by simp
      moreover have "0 \<le> m mod d" using assms by (rule pos_mod_sign)
      ultimately show ?thesis by linarith
    qed
    ultimately show False using a by linarith
  qed
qed

text \<open>The four division tests of the signed narrow path, against the product.\<close>

lemma sdiv_test_pos_pos:
  fixes m t u :: int
  assumes "0 \<le> m" "0 < u"
  shows "(m sdiv u < t) = (m < t * u)"
proof -
  have "m sdiv u = m div u" using assms by (simp add: signed_divide_int_def sgn_if)
  then show ?thesis using assms by (simp add: div_less_iff_int)
qed

lemma sdiv_test_neg_pos:
  fixes m t u :: int
  assumes "m < 0" "0 < u"
  shows "(t < m sdiv u) = (t * u < m)"
proof -
  have "m sdiv u = - ((- m) div u)" using assms by (simp add: signed_divide_int_def sgn_if)
  then have "(t < m sdiv u) = ((- m) div u < - t)" by linarith
  also have "\<dots> = (- m < (- t) * u)" using assms by (simp add: div_less_iff_int)
  also have "\<dots> = (t * u < m)" by simp
  finally show ?thesis .
qed

lemma sdiv_test_pos_neg:
  fixes m t u :: int
  assumes "0 \<le> m" "t < 0"
  shows "(u < m sdiv t) = (m < t * u)"
proof -
  have "m sdiv t = - (m div (- t))" using assms by (simp add: signed_divide_int_def sgn_if)
  then have "(u < m sdiv t) = (m div (- t) < - u)" by linarith
  also have "\<dots> = (m < (- u) * (- t))" using assms by (simp add: div_less_iff_int)
  also have "\<dots> = (m < t * u)" by (simp add: mult.commute)
  finally show ?thesis .
qed

lemma in_range_max: "in_range R (max_of R)"
  using min_le_max [of R] by (simp add: in_range_def)

lemma in_range_min: "in_range R (min_of R)"
  using min_le_max [of R] by (simp add: in_range_def)

lemma multiply_impl_unsigned_narrow_eq:
  assumes "\<not> is_signed R" "in_range R t" "in_range R u"
  shows "multiply_impl_unsigned_narrow R t u =
    Some (if max_of R < t * u then Err positive_overflow_error ''multiplication overflow''
          else Ok (t * u))"
proof -
  have nn: "0 \<le> t" "0 \<le> u" using assms by (simp_all add: in_range_def min_of_def)
  then have p: "0 \<le> t * u" by simp
  have s: "\<not> max_of R < t * u \<Longrightarrow> in_range R (t * u)"
    using p assms by (simp add: in_range_def min_of_def)
  show ?thesis
  proof (cases "0 < u")
    case True
    have q: "in_range R (max_of R sdiv u)"
      using assms True by (intro sdiv_in_range in_range_max) simp_all
    have t: "(max_of R sdiv u < t) = (max_of R < t * u)"
      using True max_of_pos [of R] by (intro sdiv_test_pos_pos) simp_all
    show ?thesis
      using assms True q s
      by (simp add: multiply_impl_unsigned_narrow_def c_greater_lit0 c_div_same in_range_max
          c_greater_promote_r t c_mul_def arith_same_ok ok_in_range)
  next
    case False
    with nn have "u = 0" by simp
    then show ?thesis
      using assms s max_of_pos [of R]
      by (simp add: multiply_impl_unsigned_narrow_def c_greater_lit0 c_mul_def arith_same_ok
          ok_in_range)
  qed
qed

lemma multiply_impl_signed_narrow_eq:
  assumes "is_signed R" "in_range R t" "in_range R u"
  shows "multiply_impl_signed_narrow R t u =
    Some (if max_of R < t * u then Err positive_overflow_error ''multiplication overflow''
          else if t * u < min_of R
          then Err negative_overflow_error ''multiplication overflow''
          else Ok (t * u))"
proof -
  note mn = min_of_signed_neg [OF assms(1)] and mx = max_of_pos [of R]
  have s: "\<not> max_of R < t * u \<Longrightarrow> \<not> t * u < min_of R \<Longrightarrow> in_range R (t * u)"
    by (simp add: in_range_def)
  have mm: "min_of R \<noteq> max_of R" using mn mx by simp
  consider (pp) "0 < t" "0 < u" | (pn) "0 < t" "u \<le> 0" | (np) "t \<le> 0" "0 < u"
    | (nn) "t < 0" "u \<le> 0" | (zn) "t = 0" "u \<le> 0"
    by linarith
  then show ?thesis
  proof cases
    case pp
    have q: "in_range R (max_of R sdiv u)"
      using assms pp by (intro sdiv_in_range in_range_max) (simp_all add: mm [symmetric])
    have t: "(max_of R sdiv u < t) = (max_of R < t * u)"
      using pp mx by (intro sdiv_test_pos_pos) simp_all
    have lo: "\<not> t * u < min_of R"
      using pp mn mult_pos_pos [of t u] by linarith
    show ?thesis
      using assms pp q s lo
      by (simp add: multiply_impl_signed_narrow_def c_greater_lit0 c_div_same in_range_max
          c_greater_promote_r t c_mul_def arith_same_ok ok_in_range)
  next
    case pn
    have q: "in_range R (min_of R sdiv t)"
      using assms pn by (intro sdiv_in_range in_range_min) simp_all
    have t: "(u < min_of R sdiv t) = (u * t < min_of R)"
      using pn mn by (intro sdiv_test_neg_pos) simp_all
    have hi: "\<not> max_of R < t * u"
      using pn mx mult_nonneg_nonpos [of t u] by linarith
    show ?thesis
      using assms pn q s hi
      by (simp add: multiply_impl_signed_narrow_def c_greater_lit0 c_div_same in_range_min
          c_less_promote_r t c_mul_def arith_same_ok ok_in_range mult.commute [of u t])
  next
    case np
    have q: "in_range R (min_of R sdiv u)"
      using assms np by (intro sdiv_in_range in_range_min) simp_all
    have t: "(t < min_of R sdiv u) = (t * u < min_of R)"
      using np mn by (intro sdiv_test_neg_pos) simp_all
    have hi: "\<not> max_of R < t * u"
      using np mx mult_nonpos_nonneg [of t u] by linarith
    show ?thesis
      using assms np q s hi
      by (simp add: multiply_impl_signed_narrow_def c_greater_lit0 c_div_same in_range_min
          c_less_promote_r t c_mul_def arith_same_ok ok_in_range)
  next
    case nn
    have q: "in_range R (max_of R sdiv t)"
      using assms nn by (intro sdiv_in_range in_range_max) (simp_all add: mm [symmetric])
    have t: "(u < max_of R sdiv t) = (max_of R < t * u)"
      using nn mx by (intro sdiv_test_pos_neg) simp_all
    have lo: "\<not> t * u < min_of R"
      using nn mn mult_nonpos_nonpos [of t u] by linarith
    show ?thesis
      using assms nn q s lo
      by (simp add: multiply_impl_signed_narrow_def c_greater_lit0 c_eq_lit0 c_div_same
          in_range_max c_less_promote_r t c_mul_def arith_same_ok ok_in_range)
  next
    case zn
    have z: "in_range R 0" using mn mx by (simp add: in_range_def)
    show ?thesis
      using assms zn z mn mx
      by (simp add: multiply_impl_signed_narrow_def c_greater_lit0 c_eq_lit0 c_mul_def
          arith_same_ok ok_in_range)
  qed
qed

lemma common_type_U64: "common_type U64 R = U64"
  by (cases R) (simp_all add: common_type_def)

lemma narrow_unsigned_bound:
  "\<not> is_signed R \<Longrightarrow> width R \<le> 32 \<Longrightarrow> in_range R t \<Longrightarrow> 0 \<le> t \<and> t \<le> 4294967295"
  by (cases R) (simp_all add: in_range_def min_of_def max_of_def)

lemma narrow_signed_bound:
  "is_signed R \<Longrightarrow> width R \<le> 32 \<Longrightarrow> in_range R t \<Longrightarrow> \<bar>t\<bar> \<le> 2147483648"
  by (cases R) (auto simp: in_range_def min_of_def max_of_def)

lemma in_range_U64: "\<not> is_signed R \<Longrightarrow> in_range R t \<Longrightarrow> in_range U64 t"
  by (cases R) (simp_all add: in_range_def min_of_def max_of_def)

lemma in_range_I64: "is_signed R \<Longrightarrow> in_range R t \<Longrightarrow> in_range I64 t"
  by (cases R) (simp_all add: in_range_def min_of_def max_of_def)

lemma multiply_impl_unsigned_wide_eq:
  assumes "\<not> is_signed R" "width R \<le> 32" "in_range R t" "in_range R u"
  shows "multiply_impl_unsigned_wide R t u =
    Some (if max_of R < t * u then Err positive_overflow_error ''multiplication overflow''
          else Ok (t * u))"
proof -
  note bt = narrow_unsigned_bound [OF assms(1,2,3)] and bu = narrow_unsigned_bound [OF assms(1,2,4)]
  have p0: "0 \<le> t * u" using bt bu by simp
  have "t * u \<le> 4294967295 * 4294967295"
    using bt bu by (intro mult_mono) simp_all
  then have p: "in_range U64 (t * u)"
    using p0 by (simp add: in_range_def min_of_def max_of_def)
  have w: "c_mul (U64, t) (U64, u) = Some (U64, t * u)"
    using p assms by (simp add: c_mul_def arith_same_ok in_range_U64)
  have g: "c_greater (U64, t * u) (R, max_of R) = (max_of R < t * u)"
    using p assms in_range_U64 [OF assms(1) in_range_max]
    by (simp add: c_greater_def c_less_def common_type_def [of R U64] common_type_U64
        static_cast_id Let_def)
      (cases R; simp add: static_cast_id)
  have s: "\<not> max_of R < t * u \<Longrightarrow> in_range R (t * u)"
    using p0 assms by (simp add: in_range_def min_of_def)
  show ?thesis
    using assms s
    by (simp add: multiply_impl_unsigned_wide_def uintmax_t_def static_cast_id in_range_U64
        w g c_mul_def [of "(R, t)"] arith_same_ok ok_in_range)
qed

lemma multiply_impl_signed_wide_eq:
  assumes "is_signed R" "width R \<le> 32" "in_range R t" "in_range R u"
  shows "multiply_impl_signed_wide R t u =
    Some (if max_of R < t * u then Err positive_overflow_error ''multiplication overflow''
          else if t * u < min_of R
          then Err negative_overflow_error ''multiplication overflow''
          else Ok (t * u))"
proof -
  note bt = narrow_signed_bound [OF assms(1,2,3)] and bu = narrow_signed_bound [OF assms(1,2,4)]
  have "\<bar>t\<bar> * \<bar>u\<bar> \<le> 2147483648 * 2147483648"
    using bt bu by (intro mult_mono) simp_all
  then have "\<bar>t * u\<bar> \<le> 4611686018427387904" by (simp add: abs_mult)
  then have p: "in_range I64 (t * u)"
    unfolding in_range_def min_of_def max_of_def by simp linarith
  have w: "c_mul (I64, t) (I64, u) = Some (I64, t * u)"
    using p assms by (simp add: c_mul_def arith_same_ok in_range_I64)
  have g: "c_greater (I64, t * u) (I64, max_of R) = (max_of R < t * u)"
    using p in_range_I64 [OF assms(1) in_range_max] by (simp add: c_greater_same)
  have l: "c_less (I64, t * u) (I64, min_of R) = (t * u < min_of R)"
    using p in_range_I64 [OF assms(1) in_range_min] by (simp add: c_less_same)
  have s: "\<not> max_of R < t * u \<Longrightarrow> \<not> t * u < min_of R \<Longrightarrow> in_range R (t * u)"
    by (simp add: in_range_def)
  show ?thesis
    using assms s in_range_I64 [OF assms(1) in_range_max] in_range_I64 [OF assms(1) in_range_min]
    by (simp add: multiply_impl_signed_wide_def intmax_t_def static_cast_id in_range_I64
        w g l c_mul_def [of "(R, t)"] arith_same_ok ok_in_range)
qed

lemma sizeof_narrow: "(sizeof uintmax_t div 2 < sizeof R) = (\<not> width R \<le> 32)"
  by (cases R) (simp_all add: sizeof_def uintmax_t_def)

lemma multiply_eq:
  assumes "in_range T t" "in_range U u"
  shows "multiply R T U t u =
    Some (if \<not> in_range R t then cast R T t
          else if \<not> in_range R u then cast R U u
          else if max_of R < t * u
          then Err positive_overflow_error ''multiplication overflow''
          else if t * u < min_of R
          then Err negative_overflow_error ''multiplication overflow''
          else Ok (t * u))"
proof (cases "in_range R t \<and> in_range R u")
  case True
  then have "\<not> is_signed R \<Longrightarrow> \<not> t * u < min_of R"
    by (simp add: in_range_def min_of_def not_less)
  with True show ?thesis
    using assms
    by (simp add: multiply_def Let_def exception_cast static_cast_id sizeof_narrow
        multiply_impl_signed_narrow_eq multiply_impl_signed_wide_eq
        multiply_impl_unsigned_narrow_eq multiply_impl_unsigned_wide_eq)
next
  case False
  then show ?thesis
    using assms by (auto simp: multiply_def Let_def exception_cast)
qed

lemma make_unsigned_unsigned: "\<not> is_signed (make_unsigned T)"
  by (cases T) simp_all

lemma abs_in_range_unsigned: "in_range U u \<Longrightarrow> in_range (make_unsigned U) \<bar>u\<bar>"
  by (cases U) (auto simp: in_range_def min_of_def max_of_def)

lemma static_cast_unsigned_min:
  "is_signed U \<Longrightarrow> static_cast (make_unsigned U) (min_of U) = - min_of U"
  by (cases U) (simp_all add: static_cast_def min_of_def)

lemma c_neg_eq:
  assumes "in_range U u" "u < 0" "u \<noteq> min_of U"
  shows "c_neg (U, u) = Some (promote U, - u)"
proof -
  have s: "is_signed U" using assms by (cases "is_signed U") (simp_all add: in_range_def min_of_def)
  then have sp: "is_signed (promote U)" by (cases U) simp_all
  have "in_range U (- u)" using assms min_max_signed [OF s] unfolding in_range_def by linarith
  then have "in_range (promote U) (- u)" by (rule in_range_promote)
  moreover have "in_range (promote U) 0" "in_range (promote U) u"
    using assms sp by (simp_all add: in_range_promote) (cases U; simp add: in_range_def min_of_def max_of_def)+
  ultimately show ?thesis
    using sp by (simp add: c_neg_def arith_def Let_def common_type_promote_l static_cast_id)
qed

lemma abs_tx_eq:
  assumes "in_range U u"
  shows "abs_tx U u = Some (make_unsigned U, \<bar>u\<bar>)"
proof -
  have m: "in_range U (min_of U)" using min_le_max [of U] by (simp add: in_range_def)
  note a = abs_in_range_unsigned [OF assms]
  consider (neg) "u < 0" "u \<noteq> min_of U" | (nmin) "u < 0" "u = min_of U" | (pos) "0 \<le> u"
    by linarith
  then show ?thesis
  proof cases
    case neg
    then show ?thesis
      using assms m a
      by (simp add: abs_tx_def c_less_lit0 c_eq_same c_neg_eq static_cast_id)
  next
    case nmin
    then have "is_signed U" using assms by (cases "is_signed U") (simp_all add: in_range_def min_of_def)
    then show ?thesis
      using assms m nmin
      by (simp add: abs_tx_def c_less_lit0 c_eq_same static_cast_unsigned_min)
  next
    case pos
    then show ?thesis
      using assms m a
      by (simp add: abs_tx_def c_less_lit0 c_eq_same static_cast_id)
  qed
qed

lemma c_mod_pos_divisor:
  assumes "in_range B b" "0 < b"
  shows "c_mod (A, a) (B, b) =
    Some (common_type A B, static_cast (common_type A B) a smod b)"
  using assms conv_common_r [of B b A]
  by (simp add: c_mod_def Let_def)

lemma modulus_eq:
  assumes "in_range U u"
  shows "modulus R T U t u =
    Some (if u = 0 then Err domain_error ''denominator is zero''
          else Ok (static_cast R
                    (static_cast (common_type T (make_unsigned U)) t smod \<bar>u\<bar>)))"
  using assms abs_in_range_unsigned [OF assms]
  by (simp add: modulus_def c_eq_lit0' abs_tx_eq c_mod_pos_divisor ok_def)

section \<open>Facts about the shifts\<close>

lemma in_range_small: "0 \<le> v \<Longrightarrow> v \<le> 127 \<Longrightarrow> in_range R v"
  by (cases R) (simp_all add: in_range_def min_of_def max_of_def)

lemma digits_le: "digits R \<le> 64" "digits R \<le> width R"
  by (cases R; simp add: digits_def)+

lemma c_greater_lit_nonneg:
  assumes "in_range U u" "0 \<le> u" "0 \<le> n" "n \<le> 127"
  shows "c_greater (U, u) (lit n) = (n < u)"
proof -
  have n: "in_range I32 n" using assms by (simp add: in_range_small)
  show ?thesis
    using conv_common_l [OF n, of U] conv_common_r [OF assms(1), of I32] assms
    by (simp add: c_greater_def c_less_def lit_def)
qed

lemma significant_bits_one: "significant_bits 1 = 1"
  by (simp add: significant_bits_def bit_length.simps)

lemma shift_frame_zero:
  "left_shift R T U t 0 = Some (Ok (static_cast R t))"
  "right_shift R T U t 0 = Some (Ok (static_cast R t))"
  by (subst left_shift.simps, simp add: c_eq_lit0 in_range_small ok_def)
    (simp add: right_shift_def c_eq_lit0 in_range_small ok_def)

lemma shift_frame_too_many:
  assumes "in_range U u" "int (digits R) < u"
  shows "left_shift R T U t u =
      Some (Err implementation_defined_behavior
             ''shifting more bits than available is implementation defined behavior'')"
    and "right_shift R T U t u =
      Some (Err implementation_defined_behavior
             ''shifting more bits than available is implementation defined behavior'')"
proof -
  have u: "0 < u" using assms by linarith
  have g: "c_greater (U, u) (lit (int (digits R)))"
    using assms u digits_le [of R] by (simp add: c_greater_lit_nonneg)
  show "left_shift R T U t u =
      Some (Err implementation_defined_behavior
             ''shifting more bits than available is implementation defined behavior'')"
    using assms u g by (subst left_shift.simps) (simp add: c_eq_lit0 c_less_lit0)
  show "right_shift R T U t u =
      Some (Err implementation_defined_behavior
             ''shifting more bits than available is implementation defined behavior'')"
    using assms u g by (simp add: right_shift_def c_eq_lit0 c_less_lit0)
qed

lemma left_shift_unsigned_frame:
  assumes "\<not> is_signed T" "in_range T t" "in_range U u" "0 < u" "u \<le> int (digits R)" "t \<noteq> 0"
  shows "left_shift R T U t u = left_shift_detail_unsigned R T U t u"
  using assms digits_le [of R]
  by (subst left_shift.simps) (simp add: c_eq_lit0 c_less_lit0 c_greater_lit_nonneg)

lemma in_range_make_unsigned: "in_range T t \<Longrightarrow> 0 \<le> t \<Longrightarrow> in_range (make_unsigned T) t"
  by (cases T) (simp_all add: in_range_def min_of_def max_of_def)

lemma left_shift_signed_frame:
  assumes "is_signed T" "in_range T t" "in_range U u" "0 < u" "u \<le> int (digits R)" "0 < t"
  shows "left_shift R T U t u = left_shift_detail_unsigned R (make_unsigned T) U t u"
proof -
  have m: "in_range (make_unsigned T) t" using assms by (simp add: in_range_make_unsigned)
  have "left_shift R T U t u = left_shift R (make_unsigned T) U t u"
    using assms m digits_le [of R]
    by (subst left_shift.simps)
      (simp add: c_eq_lit0 c_less_lit0 c_greater_lit_nonneg static_cast_id)
  also have "\<dots> = left_shift_detail_unsigned R (make_unsigned T) U t u"
    using assms m by (intro left_shift_unsigned_frame) (simp_all add: make_unsigned_unsigned)
  finally show ?thesis .
qed

lemma left_shift_u8_1_8:
  "left_shift U8 T U 1 8 =
     Some (Err undefined_behavior
            ''shifting left more bits than available is undefined behavior'')"
proof -
  have d: "left_shift_detail_unsigned U8 T' U 1 8 =
     Some (Err undefined_behavior
            ''shifting left more bits than available is undefined behavior'')" for T'
    by (simp add: left_shift_detail_unsigned_def safe_compare_greater_than_def digits_def
        significant_bits_one)
  show ?thesis
  proof (cases "is_signed T")
    case True
    then show ?thesis
      using left_shift_signed_frame [of T 1 U 8 U8]
      by (simp add: d in_range_small digits_def)
  next
    case False
    then show ?thesis
      using left_shift_unsigned_frame [of T 1 U 8 U8]
      by (simp add: d in_range_small digits_def)
  qed
qed

lemma static_cast_shift: "\<exists>k. static_cast R t = t + k * 2 ^ width R"
proof (cases "is_signed R")
  case True
  have "(t + 2 ^ (width R - 1)) mod 2 ^ width R
      = (t + 2 ^ (width R - 1)) - ((t + 2 ^ (width R - 1)) div 2 ^ width R) * 2 ^ width R"
    by (simp add: minus_div_mult_eq_mod)
  then have "static_cast R t = t + (- ((t + 2 ^ (width R - 1)) div 2 ^ width R)) * 2 ^ width R"
    using True by (simp add: static_cast_def)
  then show ?thesis by blast
next
  case False
  have "t mod 2 ^ width R = t - (t div 2 ^ width R) * 2 ^ width R"
    by (simp add: minus_div_mult_eq_mod)
  then have "static_cast R t = t + (- (t div 2 ^ width R)) * 2 ^ width R"
    using False by (simp add: static_cast_def)
  then show ?thesis by blast
qed

lemma static_cast_add_multiple: "static_cast R (t + k * 2 ^ width R) = static_cast R t"
proof -
  have "t + k * 2 ^ width R + 2 ^ (width R - 1) = (t + 2 ^ (width R - 1)) + k * 2 ^ width R"
    by simp
  then have "(t + k * 2 ^ width R + 2 ^ (width R - 1)) mod 2 ^ width R
      = (t + 2 ^ (width R - 1)) mod 2 ^ width R"
    by (simp only: mod_mult_self1)
  then show ?thesis by (simp add: static_cast_def)
qed

lemma static_cast_narrower:
  assumes "width R \<le> width P"
  shows "static_cast R (static_cast P x) = static_cast R x"
proof -
  obtain k where k: "static_cast P x = x + k * 2 ^ width P"
    using static_cast_shift [of P x] by blast
  have "(2::int) ^ width P = 2 ^ (width P - width R) * 2 ^ width R"
    using assms by (simp add: power_add [symmetric])
  then have "static_cast P x = x + (k * 2 ^ (width P - width R)) * 2 ^ width R"
    using k by simp
  then show ?thesis by (simp only: static_cast_add_multiple)
qed

lemma bit_length_bound: "0 \<le> n \<Longrightarrow> n < 2 ^ bit_length n"
proof (induction n rule: bit_length.induct)
  case (1 n)
  show ?case
  proof (cases "n \<le> 0")
    case True
    with 1 show ?thesis by (simp add: bit_length.simps)
  next
    case False
    then have "n div 2 < 2 ^ bit_length (n div 2)" using 1 by simp
    then have "n < 2 * 2 ^ bit_length (n div 2)" by linarith
    then show ?thesis using False by (subst bit_length.simps) simp
  qed
qed

lemma significant_bits_bound: "0 \<le> t \<Longrightarrow> t < 2 ^ significant_bits t"
  by (simp add: significant_bits_def bit_length_bound)

lemma max_of_digits: "max_of R = 2 ^ digits R - 1"
  by (simp add: max_of_def digits_def)

lemma c_shift_count: "in_range U u \<Longrightarrow> static_cast (promote U) u = u"
  by (simp add: static_cast_id in_range_promote)

lemma c_shr_eq:
  assumes "in_range T t" "in_range U u"
  shows "c_shr (T, t) (U, u) =
    (if u < 0 \<or> int (width (promote T)) \<le> u then None
     else Some (promote T, t div 2 ^ nat u))"
  using assms by (simp add: c_shr_def Let_def c_shift_count)

lemma min_of_nonpos: "min_of R \<le> 0"
  by (simp add: min_of_def)

lemma shr_in_range:
  assumes "in_range P t" "0 \<le> t"
  shows "in_range P (t div 2 ^ n)"
proof -
  have "0 \<le> t div 2 ^ n" using assms by (simp add: pos_imp_zdiv_nonneg_iff)
  moreover have "t div 2 ^ n \<le> t"
    using assms by (cases "t = 0") (simp_all add: int_div_le_self)
  ultimately show ?thesis
    using assms min_of_nonpos [of P] unfolding in_range_def by linarith
qed

lemma right_shift_Ok:
  assumes "in_range T t" "in_range U u" "u \<noteq> 0" "right_shift R T U t u = Some (Ok v)"
  shows "v = t div 2 ^ nat u \<and> in_range R v"
proof -
  have u: "0 < u" "u \<le> int (digits R)"
    using assms digits_le [of R]
    by (auto simp: right_shift_def c_eq_lit0 c_less_lit0 c_greater_lit_nonneg split: if_splits)
  show ?thesis
  proof (cases "t = 0")
    case True
    have "cast R I32 0 = Ok 0" by (simp add: cast_Ok_iff in_range_small)
    with True assms u digits_le [of R] show ?thesis
      by (simp add: right_shift_def c_eq_lit0 c_less_lit0 c_greater_lit_nonneg in_range_small)
  next
    case False
    have nn: "0 \<le> t"
    proof (cases "is_signed T")
      case True
      with False assms u digits_le [of R] show ?thesis
        by (auto simp: right_shift_def c_eq_lit0 c_less_lit0 c_greater_lit_nonneg
            right_shift_detail_signed_def split: if_splits)
    next
      case False
      with assms show ?thesis by (simp add: in_range_def min_of_def)
    qed
    have p: "in_range (promote T) (t div 2 ^ nat u)"
      using assms nn by (intro shr_in_range in_range_promote)
    have "cast R (promote T) (t div 2 ^ nat u) = Ok v"
      using False assms u nn digits_le [of R]
      by (auto simp: right_shift_def c_eq_lit0 c_less_lit0 c_greater_lit_nonneg
          right_shift_detail_signed_def right_shift_detail_unsigned_def c_shr_eq
          split: if_splits)
    then show ?thesis using p by (simp add: cast_Ok_iff)
  qed
qed

lemma make_unsigned_id: "\<not> is_signed T \<Longrightarrow> make_unsigned T = T"
  by (cases T) simp_all

lemma left_shift_frame:
  assumes "in_range T t" "in_range U u"
  shows "left_shift R T U t u =
    (if u = 0 then Some (Ok (static_cast R t))
     else if u < 0
     then Some (Err implementation_defined_behavior
                 ''shifting negative amount is implementation defined behavior'')
     else if int (digits R) < u
     then Some (Err implementation_defined_behavior
                 ''shifting more bits than available is implementation defined behavior'')
     else if t = 0 then Some (Ok 0)
     else if t < 0
     then Some (Err undefined_behavior ''shifting a negative value is undefined behavior'')
     else left_shift_detail_unsigned R (make_unsigned T) U t u)"
proof -
  consider (z) "u = 0" | (n) "u < 0" | (m) "int (digits R) < u"
    | (ok) "0 < u" "u \<le> int (digits R)"
    by linarith
  then show ?thesis
  proof cases
    case z
    then show ?thesis by (simp add: shift_frame_zero)
  next
    case n
    then show ?thesis
      using assms by (subst left_shift.simps) (simp add: c_eq_lit0 c_less_lit0)
  next
    case m
    then have "0 < u" by linarith
    with m show ?thesis using assms by (simp add: shift_frame_too_many)
  next
    case ok
    show ?thesis
    proof (cases "t = 0")
      case True
      have "cast R T 0 = Ok 0" by (simp add: cast_Ok_iff in_range_small)
      with True ok assms digits_le [of R] show ?thesis
        by (subst left_shift.simps)
          (simp add: c_eq_lit0 c_less_lit0 c_greater_lit_nonneg in_range_small)
    next
      case False
      show ?thesis
      proof (cases "is_signed T")
        case True
        show ?thesis
        proof (cases "t < 0")
          case neg: True
          with True False ok assms digits_le [of R] show ?thesis
            by (subst left_shift.simps)
              (simp add: c_eq_lit0 c_less_lit0 c_greater_lit_nonneg)
        next
          case pos: False
          with False have "0 < t" by linarith
          with True False ok assms show ?thesis
            by (simp add: left_shift_signed_frame)
        qed
      next
        case unsigned: False
        then have "0 \<le> t" using assms by (simp add: in_range_def min_of_def)
        with unsigned False ok assms show ?thesis
          by (simp add: left_shift_unsigned_frame make_unsigned_id)
      qed
    qed
  qed
qed

lemma c_shl_eq:
  assumes "in_range T t" "in_range U u"
  shows "c_shl (T, t) (U, u) =
    (let P = promote T
     in if u < 0 \<or> int (width P) \<le> u then None
        else if is_signed P \<and> (t < 0 \<or> max_of (make_unsigned P) < t * 2 ^ nat u) then None
        else Some (P, static_cast P (t * 2 ^ nat u)))"
  using assms by (auto simp: c_shl_def Let_def c_shift_count static_cast_id in_range_promote)

lemma shifted_in_range:
  assumes "0 \<le> t" "0 < u" "\<not> int (digits R) - int (significant_bits t) < u"
  shows "in_range R (t * 2 ^ nat u)"
proof -
  have le: "significant_bits t + nat u \<le> digits R" using assms by linarith
  have "t * 2 ^ nat u < 2 ^ significant_bits t * 2 ^ nat u"
    using significant_bits_bound [OF assms(1)] by simp
  also have "\<dots> = 2 ^ (significant_bits t + nat u)" by (simp add: power_add)
  also have "\<dots> \<le> 2 ^ digits R" using le by simp
  finally have "t * 2 ^ nat u \<le> max_of R" by (simp add: max_of_digits)
  moreover have "0 \<le> t * 2 ^ nat u" using assms by simp
  ultimately show ?thesis
    using min_of_nonpos [of R] unfolding in_range_def by linarith
qed

lemma left_shift_Ok:
  assumes "in_range T t" "in_range U u" "u \<noteq> 0"
    and "width R \<le> width (promote (make_unsigned T))"
    and "left_shift R T U t u = Some (Ok v)"
  shows "v = t * 2 ^ nat u \<and> in_range R v"
proof -
  note f = left_shift_frame [OF assms(1,2), of R]
  have u: "0 < u" using assms f by (auto split: if_splits)
  show ?thesis
  proof (cases "t = 0")
    case True
    with assms f u show ?thesis by (auto simp: in_range_small split: if_splits)
  next
    case False
    have t: "0 < t" using assms f False by (auto split: if_splits)
    have d: "left_shift_detail_unsigned R (make_unsigned T) U t u = Some (Ok v)"
      using assms f False by (auto split: if_splits)
    have m: "in_range (make_unsigned T) t"
      using assms t by (simp add: in_range_make_unsigned)
    have c: "\<not> int (digits R) - int (significant_bits t) < u"
      using d by (auto simp: left_shift_detail_unsigned_def safe_compare_greater_than_def
          split: if_splits)
    have r: "in_range R (t * 2 ^ nat u)"
      using t u c by (intro shifted_in_range) simp_all
    have "v = static_cast R (static_cast (promote (make_unsigned T)) (t * 2 ^ nat u))"
      using d c
      by (auto simp: left_shift_detail_unsigned_def safe_compare_greater_than_def
          c_shl_eq [OF m assms(2)] Let_def ok_def split: if_splits)
    then have "v = t * 2 ^ nat u"
      using assms(4) r by (simp add: static_cast_narrower static_cast_id)
    with r show ?thesis by simp
  qed
qed

section \<open>Facts about the bitwise operations\<close>

lemma c_bitwise_nonneg:
  assumes "in_range T t" "in_range U u" "0 \<le> t" "0 \<le> u"
  shows "snd (c_or (T, t) (U, u)) = t OR u"
    and "snd (c_xor (T, t) (U, u)) = t XOR u"
    and "snd (c_and (T, t) (U, u)) = t AND u"
  using assms conv_common_l [of T t U] conv_common_r [of U u T]
  by (simp_all add: c_or_def c_xor_def c_and_def Let_def)

lemma below_width:
  assumes "0 \<le> t" "significant_bits t \<le> width R"
  shows "t < 2 ^ width R"
proof -
  have "t < 2 ^ significant_bits t" using assms by (simp add: significant_bits_bound)
  also have "\<dots> \<le> (2::int) ^ width R" using assms by simp
  finally show ?thesis .
qed

lemma in_range_unsigned_iff: "\<not> is_signed R \<Longrightarrow> in_range R v = (0 \<le> v \<and> v < 2 ^ width R)"
  by (auto simp: in_range_def min_of_def max_of_def)

lemma bitwise_or_Ok:
  assumes "in_range T t" "in_range U u" "0 \<le> t" "0 \<le> u" "\<not> is_signed R"
    and "bitwise_or R T U t u = Some (Ok v)"
  shows "v = t OR u \<and> in_range R v"
proof -
  have s: "significant_bits t \<le> width R" "significant_bits u \<le> width R"
    using assms(6) by (auto simp: bitwise_or_def Let_def bits_type_def split: if_splits)
  have "t OR u < 2 ^ width R"
    using assms s by (intro OR_upper below_width) simp_all
  then have r: "in_range R (t OR u)" using assms by (simp add: in_range_unsigned_iff)
  have "v = static_cast R (t OR u)"
    using assms(6) c_bitwise_nonneg(1) [OF assms(1-4)]
    by (auto simp: bitwise_or_def Let_def ok_def split: if_splits)
  with r show ?thesis by (simp add: static_cast_id)
qed

lemma bitwise_xor_Ok:
  assumes "in_range T t" "in_range U u" "0 \<le> t" "0 \<le> u" "\<not> is_signed R"
    and "bitwise_xor R T U t u = Some (Ok v)"
  shows "v = t XOR u \<and> in_range R v"
proof -
  have s: "significant_bits t \<le> width R" "significant_bits u \<le> width R"
    using assms(6) by (auto simp: bitwise_xor_def Let_def bits_type_def split: if_splits)
  have "t XOR u < 2 ^ width R"
    using assms s by (intro XOR_upper below_width) simp_all
  then have r: "in_range R (t XOR u)" using assms by (simp add: in_range_unsigned_iff)
  have "v = static_cast R (t XOR u)"
    using assms(6) c_bitwise_nonneg(2) [OF assms(1-4)]
    by (auto simp: bitwise_xor_def Let_def ok_def split: if_splits)
  with r show ?thesis by (simp add: static_cast_id)
qed

lemma bitwise_and_Ok:
  assumes "in_range T t" "in_range U u" "0 \<le> t" "0 \<le> u" "\<not> is_signed R"
    and "bitwise_and R T U t u = Some (Ok v)"
  shows "v = t AND u \<and> in_range R v"
proof -
  have s: "significant_bits t \<le> width R \<or> significant_bits u \<le> width R"
    using assms(6) by (auto simp: bitwise_and_def Let_def bits_type_def split: if_splits)
  have "t AND u < 2 ^ width R"
  proof (cases "significant_bits t \<le> width R")
    case True
    then have "t < 2 ^ width R" using assms by (intro below_width) simp_all
    then show ?thesis using assms by (intro AND_upper1'') simp_all
  next
    case False
    with s have "u < 2 ^ width R" using assms by (intro below_width) simp_all
    then show ?thesis using assms by (intro AND_upper2'') simp_all
  qed
  then have r: "in_range R (t AND u)" using assms by (simp add: in_range_unsigned_iff)
  have "v = static_cast R (t AND u)"
    using assms(6) c_bitwise_nonneg(3) [OF assms(1-4)]
    by (auto simp: bitwise_and_def Let_def ok_def split: if_splits)
  with r show ?thesis by (simp add: static_cast_id)
qed

section \<open>The value of a successful result\<close>

lemma arithmetic_Ok:
  assumes "in_range T t" "in_range U u"
  shows "add R T U t u = Some (Ok v) \<Longrightarrow> v = t + u \<and> in_range R v"
    and "subtract R T U t u = Some (Ok v) \<Longrightarrow> v = t - u \<and> in_range R v"
    and "multiply R T U t u = Some (Ok v) \<Longrightarrow> v = t * u \<and> in_range R v"
    and "divide_checked R T U t u = Some (Ok v) \<Longrightarrow> u \<noteq> 0 \<and> v = t sdiv u \<and> in_range R v"
proof -
  have c: "\<not> in_range R x \<Longrightarrow> cast R X x \<noteq> Ok v" if "in_range X x" for X x
    using that by (simp add: cast_Ok_iff)
  show "add R T U t u = Some (Ok v) \<Longrightarrow> v = t + u \<and> in_range R v"
    using c [OF assms(1)] c [OF assms(2)]
    by (auto simp: add_eq [OF assms] in_range_def split: if_splits)
  show "subtract R T U t u = Some (Ok v) \<Longrightarrow> v = t - u \<and> in_range R v"
    using c [OF assms(1)] c [OF assms(2)]
    by (auto simp: subtract_eq [OF assms] in_range_def min_of_def split: if_splits)
  show "multiply R T U t u = Some (Ok v) \<Longrightarrow> v = t * u \<and> in_range R v"
    using c [OF assms(1)] c [OF assms(2)]
    by (auto simp: multiply_eq [OF assms] in_range_def split: if_splits)
  show "divide_checked R T U t u = Some (Ok v) \<Longrightarrow> u \<noteq> 0 \<and> v = t sdiv u \<and> in_range R v"
    using sdiv_in_range [of R t u]
    by (auto simp: divide_eq [OF assms] split: if_splits)
qed

section \<open>Claims about the checked conversion\<close>

text \<open>
  C2.  For an unsigned result type \<open>R\<close> and a signed source type \<open>T\<close>, \<open>cast<R>(t)\<close> is
  \<open>domain_error\<close> when \<open>t < 0\<close>, \<open>positive_overflow_error\<close> when \<open>t > R::max\<close>, and
  \<open>Ok (static_cast<R>(t))\<close> otherwise; casting the \<open>int8_t\<close> value \<open>-1\<close> to \<open>uint8_t\<close> is a
  \<open>domain_error\<close>.
\<close>

theorem cast_unsigned_from_signed:
  assumes "\<not> is_signed R" and "is_signed T"
  shows "cast R T t =
           (if t < 0 then Err domain_error ''converted negative value to unsigned''
            else if max_of R < t
            then Err positive_overflow_error ''converted signed value too large''
            else Ok (static_cast R t))
         \<and> cast U8 I8 (- 1) = Err domain_error ''converted negative value to unsigned''"
  using assms
  by (simp add: cast_def cast_impl_unsigned_signed_def safe_compare_less_than_def
      safe_compare_greater_than_def lit_def)

theorem cast_unsigned_from_signed_witness:
  "\<not> is_signed U16 \<and> is_signed I32
   \<and> cast U16 I32 (- 5) = Err domain_error ''converted negative value to unsigned''
   \<and> cast U16 I32 65536 = Err positive_overflow_error ''converted signed value too large''
   \<and> cast U16 I32 65535 = Ok 65535"
  using cast_unsigned_from_signed [of U16 I32 "- 5"]
    cast_unsigned_from_signed [of U16 I32 65536]
    cast_unsigned_from_signed [of U16 I32 65535]
  by (simp add: max_of_def static_cast_def)

text \<open>
  C8.  Cast round trip: if \<open>cast<R>(t) = Ok r\<close> for a \<open>t\<close> of type \<open>T\<close> (so \<open>t\<close> lies in
  the ranges of both \<open>R\<close> and \<open>T\<close>), then casting \<open>r\<close> back gives \<open>cast<T>(r) = Ok t\<close>.
\<close>

theorem cast_round_trip:
  assumes "in_range T t" and "in_range R t" and "cast R T t = Ok r"
  shows "cast T R r = Ok t"
  using assms by (simp add: cast_Ok_iff)

theorem cast_round_trip_witness:
  "in_range I8 100 \<and> in_range U64 100 \<and> cast U64 I8 100 = Ok 100 \<and> cast I8 U64 100 = Ok 100"
proof -
  have a: "in_range I8 100" by (simp add: in_range_def min_of_def max_of_def)
  have b: "in_range U64 100" by (simp add: in_range_def min_of_def max_of_def)
  have c: "cast U64 I8 100 = Ok 100" using a b by (simp add: cast_Ok_iff)
  show ?thesis using a b c cast_round_trip [OF a b c] by simp
qed

section \<open>Claims about division\<close>

text \<open>
  C3.  \<open>divide<R>(t, u)\<close> is \<open>domain_error\<close> when \<open>u = 0\<close>, whatever the casts would give;
  for \<open>u \<noteq> 0\<close>, when the cast of \<open>t\<close> or of \<open>u\<close> to \<open>R\<close> fails it is \<open>domain_error\<close> with
  the message "failure converting argument types", whatever the kind of the cast's own
  error; for a signed \<open>R\<close>, \<open>u = -1\<close> and \<open>t = R::min\<close> it is \<open>range_error\<close>; otherwise it is
  \<open>Ok\<close> of the quotient truncated towards zero.
\<close>

theorem divide_spec:
  assumes "in_range T t" and "in_range U u"
  shows "divide_checked R T U t u =
    Some (if u = 0 then Err domain_error ''divide by zero''
          else if exception (cast R T t) \<or> exception (cast R U u)
          then Err domain_error ''failure converting argument types''
          else if is_signed R \<and> u = - 1 \<and> t = min_of R
          then Err range_error ''result cannot be represented''
          else Ok (sgn t * sgn u * (\<bar>t\<bar> div \<bar>u\<bar>)))"
  using assms by (simp add: divide_eq exception_cast signed_divide_int_def)

theorem divide_spec_witness:
  "in_range I32 (- 7) \<and> in_range I32 2 \<and> in_range I32 0 \<and> in_range I32 (- 1)
   \<and> in_range I32 (- 128)
   \<and> divide_checked I32 I32 I32 (- 7) 2 = Some (Ok (- 3))
   \<and> divide_checked I32 I32 I32 (- 7) 0 = Some (Err domain_error ''divide by zero'')
   \<and> divide_checked U8 I32 I32 (- 7) 0 = Some (Err domain_error ''divide by zero'')
   \<and> divide_checked U8 I32 I32 (- 7) 2
       = Some (Err domain_error ''failure converting argument types'')
   \<and> divide_checked I8 I32 I32 (- 128) (- 1)
       = Some (Err range_error ''result cannot be represented'')"
proof -
  have r: "in_range I32 (- 7)" "in_range I32 2" "in_range I32 0" "in_range I32 (- 1)"
    "in_range I32 (- 128)"
    by (simp_all add: in_range_def min_of_def max_of_def)
  have e: "\<not> exception (cast I32 I32 (- 7))" "\<not> exception (cast I32 I32 2)"
    "exception (cast U8 I32 (- 7))" "\<not> exception (cast I8 I32 (- 128))"
    "\<not> exception (cast I8 I32 (- 1))"
    by (simp_all add: exception_cast r in_range_def min_of_def max_of_def)
  show ?thesis
    using r e divide_spec [OF r(1) r(2), of I32] divide_spec [OF r(1) r(3), of I32]
      divide_spec [OF r(1) r(2), of U8] divide_spec [OF r(5) r(4), of I8]
      divide_spec [OF r(1) r(3), of U8]
    by (simp add: min_of_def)
qed

section \<open>Claims about subtraction\<close>

text \<open>
  C4.  The claim asks for \<open>negative_overflow_error\<close> when \<open>t - u\<close> is below \<open>R::min\<close> and for
  \<open>positive_overflow_error\<close> when it is above \<open>R::max\<close>.  The signed overload of
  \<open>subtract_impl_detail::subtract\<close> returns the two kinds the other way round: at
  \<open>int8_t\<close>, \<open>-128 - 1\<close> is reported as a positive overflow and \<open>127 - (-1)\<close> as a negative
  one.
\<close>

theorem subtract_signed_overflow_kinds:
  "subtract I8 I8 I8 (- 128) 1
     = Some (Err positive_overflow_error ''subtraction result overflows result type'')
   \<and> subtract I8 I8 I8 127 (- 1)
     = Some (Err negative_overflow_error ''subtraction result overflows result type'')"
  by code_simp

section \<open>Claims about modulus\<close>

text \<open>
  C9.  \<open>modulus<R>(t, u)\<close> casts neither operand to \<open>R\<close> and checks no range: for every
  \<open>u \<noteq> 0\<close> it returns \<open>Ok\<close>, also when \<open>t\<close> or \<open>u\<close> is not representable in \<open>R\<close>; its only
  error is the \<open>domain_error\<close> for \<open>u = 0\<close>.
\<close>

theorem modulus_only_error:
  assumes "in_range T t" and "in_range U u"
  shows "(u = 0 \<longrightarrow> modulus R T U t u = Some (Err domain_error ''denominator is zero''))
       \<and> (u \<noteq> 0 \<longrightarrow> (\<exists>v. modulus R T U t u = Some (Ok v)))"
  using modulus_eq [OF assms(2), of R T t] by auto

theorem modulus_only_error_witness:
  "in_range I16 1000 \<and> in_range I16 7000 \<and> in_range I16 0
   \<and> \<not> in_range U8 1000 \<and> \<not> in_range U8 7000
   \<and> modulus U8 I16 I16 1000 0 = Some (Err domain_error ''denominator is zero'')
   \<and> (\<exists>v. modulus U8 I16 I16 1000 7000 = Some (Ok v))"
proof -
  have r: "in_range I16 1000" "in_range I16 7000" "in_range I16 0"
    by (simp_all add: in_range_def min_of_def max_of_def)
  have n: "\<not> in_range U8 1000" "\<not> in_range U8 7000"
    by (simp_all add: in_range_def min_of_def max_of_def)
  show ?thesis
    using r n modulus_only_error [OF r(1) r(2), of U8] modulus_only_error [OF r(1) r(3), of U8]
    by simp
qed

text \<open>
  C7.  The claim asks that \<open>modulus<R>(t, u)\<close> for \<open>u \<noteq> 0\<close> be \<open>Ok\<close> of \<open>t mod |u|\<close> with the
  sign of the dividend, as the comment in \<open>modulus\<close> says.  Because \<open>abs\<close> returns the unsigned
  type of \<open>U\<close>, the native \<open>%\<close> converts a negative \<open>t\<close> of type \<open>int\<close> (or wider) to unsigned
  first: \<open>-7 % 2\<close> comes out as \<open>1\<close>, where the remainder with the sign of the dividend is
  \<open>-1\<close>.  The example of the claim, \<open>-128 % -1\<close> at \<open>int8_t\<close>, does give \<open>Ok 0\<close>.
\<close>

theorem modulus_sign_of_dividend_fails:
  "modulus I32 I32 I32 (- 7) 2 = Some (Ok 1)
   \<and> (- 7) smod \<bar>2\<bar> = (- 1 :: int)
   \<and> modulus I64 I64 I64 (- 7) 2 = Some (Ok 1)
   \<and> modulus I8 I8 I8 (- 128) (- 1) = Some (Ok 0)"
  by code_simp

section \<open>Claims about the native division and remainder\<close>

text \<open>
  C10.  The native \<open>/\<close> in \<open>divide\<close> and \<open>%\<close> in \<open>modulus\<close> never run in a trapping case.
  Both functions always return (a trap is \<open>None\<close> here); a quotient is only produced with
  \<open>u \<noteq> 0\<close> and, for a signed \<open>R\<close>, not with \<open>t = R::min\<close> and \<open>u = -1\<close>; and the divisor handed
  to \<open>%\<close> is \<open>abs(u)\<close>, of an unsigned type and still positive after the conversion to the
  common type of the operands, so it is neither \<open>0\<close> nor \<open>-1\<close>.
\<close>

theorem native_division_never_traps:
  assumes "in_range T t" and "in_range U u"
  shows "(\<exists>r. divide_checked R T U t u = Some r)
       \<and> (\<forall>v. divide_checked R T U t u = Some (Ok v)
              \<longrightarrow> u \<noteq> 0 \<and> \<not> (is_signed R \<and> t = min_of R \<and> u = - 1))
       \<and> (\<exists>r. modulus R T U t u = Some r)
       \<and> (u \<noteq> 0 \<longrightarrow>
            (\<exists>a. abs_tx U u = Some a \<and> \<not> is_signed (fst a)
                 \<and> 0 < static_cast (common_type T (fst a)) (snd a)))"
proof -
  have a: "in_range (make_unsigned U) \<bar>u\<bar>" using assms by (simp add: abs_in_range_unsigned)
  have "u \<noteq> 0 \<Longrightarrow> 0 < static_cast (common_type T (make_unsigned U)) \<bar>u\<bar>"
    using conv_common_r [OF a, of T] by simp
  then show ?thesis
    using assms
    by (auto simp: divide_eq modulus_eq abs_tx_eq make_unsigned_unsigned split: if_splits)
qed

theorem native_division_never_traps_witness:
  "in_range I8 (- 128) \<and> in_range I8 (- 1)
   \<and> divide_checked I8 I8 I8 (- 128) (- 1) = Some (Err range_error ''result cannot be represented'')
   \<and> modulus I8 I8 I8 (- 128) (- 1) = Some (Ok 0)
   \<and> abs_tx I8 (- 1) = Some (U8, 1)"
proof -
  have r: "in_range I8 (- 128)" "in_range I8 (- 1)"
    by (simp_all add: in_range_def min_of_def max_of_def)
  have d: "divide_checked I8 I8 I8 (- 128) (- 1) = Some (Err range_error ''result cannot be represented'')"
    by code_simp
  have m: "modulus I8 I8 I8 (- 128) (- 1) = Some (Ok 0)" by code_simp
  have a: "abs_tx I8 (- 1) = Some (U8, 1)" by code_simp
  show ?thesis
    using r d m a native_division_never_traps [OF r, of I8] by simp
qed

section \<open>Claims about the shifts\<close>

text \<open>
  C5 (as amended).  Both shifts reject a count \<open>u\<close> strictly greater than the width of \<open>R\<close>
  with \<open>implementation_defined_behavior\<close> (the guard of the code is \<open>u > digits\<close>).  The
  count \<open>8\<close> at \<open>uint8_t\<close> is not greater than \<open>8\<close>, so \<open>left_shift<uint8_t>(1, 8)\<close> passes
  the frame and is rejected by the rule for an unsigned left operand, with
  \<open>undefined_behavior\<close>, whatever the types of the operands.
\<close>

theorem shift_count_above_width:
  assumes "in_range U u" and "int (width R) < u"
  shows "left_shift R T U t u =
      Some (Err implementation_defined_behavior
             ''shifting more bits than available is implementation defined behavior'')
    \<and> right_shift R T U t u =
      Some (Err implementation_defined_behavior
             ''shifting more bits than available is implementation defined behavior'')
    \<and> left_shift U8 T U 1 8 =
      Some (Err undefined_behavior
             ''shifting left more bits than available is undefined behavior'')"
proof -
  have "int (digits R) < u" using assms digits_le(2) [of R] by linarith
  then show ?thesis
    using assms(1) by (simp add: shift_frame_too_many left_shift_u8_1_8)
qed

theorem shift_count_above_width_witness:
  "in_range U8 9 \<and> int (width U8) < 9
   \<and> left_shift U8 U8 U8 1 9 =
      Some (Err implementation_defined_behavior
             ''shifting more bits than available is implementation defined behavior'')
   \<and> right_shift U8 U8 U8 1 9 =
      Some (Err implementation_defined_behavior
             ''shifting more bits than available is implementation defined behavior'')
   \<and> left_shift U8 U8 U8 1 8 =
      Some (Err undefined_behavior
             ''shifting left more bits than available is undefined behavior'')"
proof -
  have r: "in_range U8 9" by (simp add: in_range_small)
  have w: "int (width U8) < 9" by simp
  show ?thesis using r w shift_count_above_width [OF r w, of U8 1] by simp
qed

text \<open>
  C5 as stated fails at its own example: \<open>left_shift<uint8_t>(1, 8)\<close> is an
  \<open>undefined_behavior\<close> error, not an \<open>implementation_defined_behavior\<close> one.
\<close>

theorem left_shift_u8_1_8_counterexample:
  "left_shift U8 U8 U8 1 8 =
     Some (Err undefined_behavior
            ''shifting left more bits than available is undefined behavior'')
   \<and> left_shift U8 I32 I32 1 8 =
     Some (Err undefined_behavior
            ''shifting left more bits than available is undefined behavior'')
   \<and> undefined_behavior \<noteq> implementation_defined_behavior"
  by code_simp




section \<open>Claims about the value of a successful result\<close>

text \<open>
  C1.  The claim asks that every \<open>Ok v\<close> of a binary operation carry the exact result.
  \<open>left_shift\<close> tests the count against the result type (\<open>u > digits - significant_bits(t)\<close>
  with the digits of \<open>R\<close>) but evaluates \<open>t << u\<close> in the promoted type of \<open>t\<close>:
  \<open>0xFFFFFFFF << 16\<close> from \<open>uint32_t\<close> into \<open>uint64_t\<close> passes the test (\<open>16 \<le> 64 - 32\<close>), wraps
  in 32 bits and is returned as \<open>Ok 4294901760\<close>, although the exact product
  \<open>281474976645120\<close> is a value of \<open>uint64_t\<close>; the same operand given as a \<open>uint64_t\<close> yields
  the exact product.
\<close>

theorem left_shift_in_operand_type:
  "in_range U32 4294967295 \<and> in_range U32 16
   \<and> left_shift U64 U32 U32 4294967295 16 = Some (Ok 4294901760)
   \<and> 4294967295 * 2 ^ 16 = (281474976645120 :: int)
   \<and> in_range U64 281474976645120
   \<and> left_shift U64 U64 U32 4294967295 16 = Some (Ok 281474976645120)"
  by code_simp

end
